theory Spec2Isabelle
  imports Complex_Main
begin

section \<open>Rectified flow: training loss and Euler samplers (models/rf.py)\<close>

text \<open>
  The development embeds \<^verbatim>\<open>src/models/rf.py\<close>: the classes \<^verbatim>\<open>RectifiedFlow\<close> and
  \<^verbatim>\<open>LatentRectifiedFlow\<close>. Tensor entries are real numbers, and the arithmetic of
  the loss and of the samplers is exact: the rounding of the 32-bit floats of the
  implementation is outside the model there. It is written out in the two scalings
  of the latent model (\<^verbatim>\<open>encode\<close>, \<^verbatim>\<open>decode\<close>), where the round trip depends on
  it. Everything else a call does (shapes, broadcasting, the order of the random
  draws, in-place scaling, assertions, library errors, divisions by zero) is written
  out.
\<close>

subsection \<open>Errors\<close>

text \<open>
  \<^item> \<open>AssertionError\<close>: a failed \<^verbatim>\<open>assert\<close> of the source.
  \<^item> \<open>IndexError\<close>: \<^verbatim>\<open>x.shape[0]\<close> on a tensor without dimensions.
  \<^item> \<open>TypeError\<close>: \<^verbatim>\<open>len(z)\<close> on a tensor without dimensions.
  \<^item> \<open>RuntimeError\<close>: the library refuses the shapes of an operation
    (operands that do not broadcast, tensors of different shapes given to \<^verbatim>\<open>stack\<close>).
  \<^item> \<open>DivisionByZero\<close>: a division by zero was evaluated. The library does not raise
    there: the floating-point result is infinite or not a number, which no real
    number stands for, so the model stops with this value instead.
\<close>

datatype error = AssertionError | IndexError | TypeError | RuntimeError | DivisionByZero

definition bindE :: "error + 'a \<Rightarrow> ('a \<Rightarrow> error + 'b) \<Rightarrow> error + 'b" where
  "bindE r f = (case r of Inl e \<Rightarrow> Inl e | Inr v \<Rightarrow> f v)"

subsection \<open>Tensors of the library\<close>

text \<open>
  A tensor is its shape and its entries in row-major order, as the library stores a
  contiguous tensor. A tensor without dimensions (shape \<open>[]\<close>) holds one entry.
\<close>

record tensor =
  shape :: "nat list"
  entries :: "real list"

definition numel :: "tensor \<Rightarrow> nat" where
  "numel a = prod_list (shape a)"

definition wf_tensor :: "tensor \<Rightarrow> bool" where
  "wf_tensor a = (length (entries a) = numel a)"

definition scalar_tensor :: "real \<Rightarrow> tensor" where
  "scalar_tensor v = \<lparr>shape = [], entries = [v]\<rparr>"

text \<open>An operation applied to every entry (an operand that is a Python number).\<close>

definition tmap :: "(real \<Rightarrow> real) \<Rightarrow> tensor \<Rightarrow> tensor" where
  "tmap f a = a\<lparr>entries := map f (entries a)\<rparr>"

text \<open>
  Broadcasting of the library: the shapes are aligned at their last dimension, the
  shorter one padded with ones in front; two dimensions agree when they are equal or
  one of them is one.
\<close>

definition pad_shape :: "nat \<Rightarrow> nat list \<Rightarrow> nat list" where
  "pad_shape r s = replicate (r - length s) 1 @ s"

fun broadcast_dims :: "nat list \<Rightarrow> nat list \<Rightarrow> nat list option" where
  "broadcast_dims [] [] = Some []"
| "broadcast_dims (d # ds) (e # es) =
     (if d = e \<or> e = 1 then map_option ((#) d) (broadcast_dims ds es)
      else if d = 1 then map_option ((#) e) (broadcast_dims ds es)
      else None)"
| "broadcast_dims _ _ = None"

definition chunks :: "nat \<Rightarrow> nat \<Rightarrow> 'a list \<Rightarrow> 'a list list" where
  "chunks k d xs = map (\<lambda>i. take k (drop (i * k) xs)) [0..<d]"

text \<open>
  \<open>expand s s' xs\<close>: the entries \<open>xs\<close> of a tensor of shape \<open>s\<close>, repeated along every
  dimension of size one that the target shape \<open>s'\<close> (of the same rank) enlarges.
\<close>

fun expand :: "nat list \<Rightarrow> nat list \<Rightarrow> real list \<Rightarrow> real list" where
  "expand (d # ds) (e # es) xs =
     (if d = e then concat (map (expand ds es) (chunks (prod_list ds) d xs))
      else concat (replicate e (expand ds es xs)))"
| "expand _ _ xs = xs"

definition tbinop :: "(real \<Rightarrow> real \<Rightarrow> real) \<Rightarrow> tensor \<Rightarrow> tensor \<Rightarrow> error + tensor" where
  "tbinop f a b =
     (let r = max (length (shape a)) (length (shape b));
          sa = pad_shape r (shape a);
          sb = pad_shape r (shape b)
      in case broadcast_dims sa sb of
           None \<Rightarrow> Inl RuntimeError
         | Some s \<Rightarrow>
             Inr \<lparr>shape = s,
                  entries = map2 f (expand sa s (entries a)) (expand sb s (entries b))\<rparr>)"

definition tadd :: "tensor \<Rightarrow> tensor \<Rightarrow> error + tensor" where
  "tadd = tbinop (+)"

definition tsub :: "tensor \<Rightarrow> tensor \<Rightarrow> error + tensor" where
  "tsub = tbinop (-)"

definition tmul :: "tensor \<Rightarrow> tensor \<Rightarrow> error + tensor" where
  "tmul = tbinop (*)"

text \<open>\<^verbatim>\<open>v / n\<close> for a Python integer \<open>n\<close>.\<close>

definition tdiv_int :: "tensor \<Rightarrow> nat \<Rightarrow> error + tensor" where
  "tdiv_int v n = (if n = 0 then Inl DivisionByZero else Inr (tmap (\<lambda>a. a / real n) v))"

definition sigmoid :: "real \<Rightarrow> real" where
  "sigmoid a = 1 / (1 + exp (- a))"

text \<open>\<^verbatim>\<open>z.clip(-1, 1)\<close>.\<close>

definition clip :: "real \<Rightarrow> real \<Rightarrow> tensor \<Rightarrow> tensor" where
  "clip lo hi = tmap (\<lambda>a. min (max a lo) hi)"

text \<open>
  \<^verbatim>\<open>torch.stack\<close>: a new first dimension over tensors of one shape; an empty list
  or two different shapes are refused.
\<close>

definition stack :: "tensor list \<Rightarrow> error + tensor" where
  "stack ts =
     (case ts of
        [] \<Rightarrow> Inl RuntimeError
      | a # _ \<Rightarrow>
          if list_all (\<lambda>b. shape b = shape a) ts
          then Inr \<lparr>shape = length ts # shape a, entries = concat (map entries ts)\<rparr>
          else Inl RuntimeError)"

text \<open>\<open>select a i\<close>: \<^verbatim>\<open>a[i]\<close>, the \<open>i\<close>-th tensor along the first dimension.\<close>

definition select :: "tensor \<Rightarrow> nat \<Rightarrow> tensor" where
  "select a i =
     \<lparr>shape = tl (shape a),
      entries = take (prod_list (tl (shape a))) (drop (i * prod_list (tl (shape a))) (entries a))\<rparr>"

text \<open>
  \<^verbatim>\<open>F.mse_loss(input, target)\<close> with the default reduction: the operands are
  broadcast against each other, and the squared differences averaged. Over no
  entries the average is \<open>0 / 0\<close>.
\<close>

definition mse_loss :: "tensor \<Rightarrow> tensor \<Rightarrow> error + real" where
  "mse_loss a b =
     bindE (tsub a b) (\<lambda>d.
       if entries d = [] then Inl DivisionByZero
       else Inr (sum_list (map (\<lambda>v. v\<^sup>2) (entries d)) / real (length (entries d))))"

text \<open>
  \<^verbatim>\<open>torch.linspace(start, end, steps)\<close>: no value for zero steps, the start alone
  for one step, and otherwise \<open>steps\<close> values with the common difference
  \<open>(end - start) / (steps - 1)\<close>.
\<close>

definition linspace :: "real \<Rightarrow> real \<Rightarrow> nat \<Rightarrow> tensor" where
  "linspace a b steps =
     \<lparr>shape = [steps],
      entries = (if steps = 1 then [a]
                 else map (\<lambda>i. a + real i * ((b - a) / real (steps - 1))) [0..<steps])\<rparr>"

text \<open>
  \<^verbatim>\<open>reversed(t_span)\<close> of a one-dimensional tensor, as the \<^verbatim>\<open>for\<close> loop reads it:
  its entries from the last to the first, each a tensor without dimensions.
\<close>

definition reversed :: "tensor \<Rightarrow> tensor list" where
  "reversed a = map scalar_tensor (rev (entries a))"

text \<open>\<^verbatim>\<open>t.repeat(k)\<close> of a tensor without dimensions.\<close>

definition repeat :: "tensor \<Rightarrow> nat \<Rightarrow> tensor" where
  "repeat t k = \<lparr>shape = [k], entries = concat (replicate k (entries t))\<rparr>"

text \<open>\<^verbatim>\<open>rearrange(t, "b -> b 1 1 1")\<close> of a one-dimensional tensor.\<close>

definition rearrange_b111 :: "tensor \<Rightarrow> tensor" where
  "rearrange_b111 t = t\<lparr>shape := shape t @ [1, 1, 1]\<rparr>"

subsection \<open>Rounding to 32-bit floats\<close>

text \<open>
  The result of one floating-point operation: the exact result rounded to the
  nearest number with a significand of 24 bits, a tie to the one whose last bit is
  zero. \<open>\<lfloor>log 2 \<bar>y\<bar>\<rfloor>\<close> is the exponent of \<open>y\<close>; below \<open>-126\<close> the numbers are
  subnormal and keep the spacing \<open>2 powi (- 149)\<close>. Overflow is not modelled: a
  result beyond the largest float is infinite in the implementation, and no real
  number stands for it.
\<close>

definition round_half_even :: "real \<Rightarrow> int" where
  "round_half_even r =
     (let f = \<lfloor>r\<rfloor>; d = r - of_int f
      in if d < 1 / 2 then f else if 1 / 2 < d then f + 1 else if even f then f else f + 1)"

definition fl32 :: "real \<Rightarrow> real" where
  "fl32 y =
     (if y = 0 then 0
      else let e = max \<lfloor>log 2 \<bar>y\<bar>\<rfloor> (- 126); q = 2 powi (e - 23)
           in of_int (round_half_even (y / q)) * q)"

subsection \<open>The random generator\<close>

text \<open>
  The generator of the library is a state: the model keeps the values it will
  produce (\<open>gaussian g k\<close> when draw number \<open>k\<close> is asked as a standard normal,
  \<open>uniform g k\<close> when it is asked as uniform on the unit interval) and the number of
  draws made so far. A call draws one value per entry and returns the new state.
\<close>

record rng =
  gaussian :: "nat \<Rightarrow> real"
  uniform :: "nat \<Rightarrow> real"
  drawn :: nat

definition randn :: "nat list \<Rightarrow> rng \<Rightarrow> tensor \<times> rng" where
  "randn s g =
     (\<lparr>shape = s, entries = map (gaussian g) [drawn g ..< drawn g + prod_list s]\<rparr>,
      g\<lparr>drawn := drawn g + prod_list s\<rparr>)"

definition rand :: "nat list \<Rightarrow> rng \<Rightarrow> tensor \<times> rng" where
  "rand s g =
     (\<lparr>shape = s, entries = map (uniform g) [drawn g ..< drawn g + prod_list s]\<rparr>,
      g\<lparr>drawn := drawn g + prod_list s\<rparr>)"

definition randn_like :: "tensor \<Rightarrow> rng \<Rightarrow> tensor \<times> rng" where
  "randn_like a g = randn (shape a) g"

subsection \<open>The collaborators: velocity network and autoencoder\<close>

text \<open>
  The network is a parameter of the model. The source calls it in three ways:
  \<^verbatim>\<open>net(z_t, t, c)\<close> (\<open>call3\<close>; \<open>c\<close> is \<^verbatim>\<open>None\<close> or a tensor of integer labels),
  \<^verbatim>\<open>net(z, t)\<close> (\<open>call2\<close>, the label argument left to the network's own default) and
  \<^verbatim>\<open>net.forward_with_cfg(z, t, y, cfg_scale)\<close>. \<open>num_classes\<close> is the attribute of the
  same name, \<^verbatim>\<open>None\<close> for an unconditional network. The time argument is a tensor:
  one entry per sample, or no dimension at all in \<^verbatim>\<open>sample\<close>.
\<close>

record velocity_net =
  num_classes :: "nat option"
  call3 :: "tensor \<Rightarrow> tensor \<Rightarrow> int list option \<Rightarrow> tensor"
  call2 :: "tensor \<Rightarrow> tensor \<Rightarrow> tensor"
  forward_with_cfg :: "tensor \<Rightarrow> tensor \<Rightarrow> int list \<Rightarrow> real \<Rightarrow> tensor"

text \<open>
  The autoencoder of the latent model: \<open>encode_sample\<close> is
  \<^verbatim>\<open>vae.encode(x).latent_dist.sample()\<close>, which draws from the generator, and
  \<open>decode_sample\<close> is \<^verbatim>\<open>vae.decode(x).sample\<close>, an attribute of the decoder's output.
  \<open>encode_sample\<close> returns the sample, whether the sample is the tensor it was given
  (the same object, as a stand-in may return it) rather than a new one, and the
  generator.
\<close>

record autoencoder =
  encode_sample :: "tensor \<Rightarrow> rng \<Rightarrow> tensor \<times> bool \<times> rng"
  decode_sample :: "tensor \<Rightarrow> tensor"

subsection \<open>The helpers of modules.utils\<close>

text \<open>
  Modelled from the spec: \<^verbatim>\<open>normalize_to_neg1_1\<close> and \<^verbatim>\<open>unnormalize_to_0_1\<close> of
  \<^verbatim>\<open>modules/utils.py\<close>, which is not among the sources. The spec has them as the
  fixed affine transforms from \<open>[0,1]\<close> to \<open>[-1,1]\<close> and back.
\<close>

definition normalize_to_neg1_1 :: "tensor \<Rightarrow> tensor" where
  "normalize_to_neg1_1 = tmap (\<lambda>a. a * 2 - 1)"

definition unnormalize_to_0_1 :: "tensor \<Rightarrow> tensor" where
  "unnormalize_to_0_1 = tmap (\<lambda>a. (a + 1) * 0.5)"

subsection \<open>RectifiedFlow\<close>

record RectifiedFlow =
  net :: velocity_net
  use_cond :: bool
  channels :: nat
  image_size :: nat
  logit_normal_sampling_t :: bool

text \<open>\<^verbatim>\<open>RectifiedFlow.__init__\<close>.\<close>

definition RectifiedFlow_init :: "velocity_net \<Rightarrow> nat \<Rightarrow> nat \<Rightarrow> bool \<Rightarrow> RectifiedFlow" where
  "RectifiedFlow_init nt ch sz logit =
     \<lparr>net = nt, use_cond = (num_classes nt \<noteq> None), channels = ch, image_size = sz,
      logit_normal_sampling_t = logit\<rparr>"

text \<open>
  \<^verbatim>\<open>RectifiedFlow.forward\<close>, the training loss. The result is the loss or the error,
  and the generator after the call.
\<close>

definition forward ::
  "'a RectifiedFlow_scheme \<Rightarrow> tensor \<Rightarrow> int list option \<Rightarrow> rng \<Rightarrow> (error + real) \<times> rng" where
  "forward self x c g =
     (if use_cond self \<and> c = None then (Inl AssertionError, g)
      else case shape x of
        [] \<Rightarrow> (Inl IndexError, g)
      | b # _ \<Rightarrow>
          let (t, g1) = (if logit_normal_sampling_t self
                         then (let (r, g') = randn [b] g in (tmap sigmoid r, g'))
                         else rand [b] g);
              t_b = rearrange_b111 t;
              (z, g2) = randn_like x g1;
              x1 = normalize_to_neg1_1 x
          in (bindE (tmul (tmap (\<lambda>a. 1 - a) t_b) x1) (\<lambda>l.
              bindE (tmul t_b z) (\<lambda>r.
              bindE (tadd l r) (\<lambda>z_t.
              let v_t = call3 (net self) z_t t c in
              bindE (tsub z x1) (\<lambda>target.
              mse_loss target v_t)))), g2))"

text \<open>
  The loop of \<^verbatim>\<open>RectifiedFlow.sample\<close> over the time points still to visit:
  the state \<open>z\<close> and the list \<open>images\<close> are the loop's variables.
\<close>

fun sample_loop ::
  "velocity_net \<Rightarrow> nat \<Rightarrow> tensor list \<Rightarrow> tensor \<Rightarrow> tensor list \<Rightarrow> error + tensor \<times> tensor list" where
  "sample_loop nt sampling_steps [] z images = Inr (z, images)"
| "sample_loop nt sampling_steps (t # ts) z images =
     (let v_t = call2 nt z t in
      (case tdiv_int v_t sampling_steps of
         Inl e \<Rightarrow> Inl e
       | Inr d \<Rightarrow>
           (case tsub z d of
              Inl e \<Rightarrow> Inl e
            | Inr z' \<Rightarrow> sample_loop nt sampling_steps ts z' (images @ [z']))))"

text \<open>
  \<^verbatim>\<open>RectifiedFlow.sample\<close>. The device and the progress bar have no part in the
  result. The call returns the images, and the trajectory when
  \<^verbatim>\<open>return_all_steps\<close> is set.
\<close>

definition sample ::
  "'a RectifiedFlow_scheme \<Rightarrow> nat \<Rightarrow> nat \<Rightarrow> bool \<Rightarrow> rng
     \<Rightarrow> (error + tensor \<times> tensor option) \<times> rng" where
  "sample self batch_size sampling_steps return_all_steps g =
     (let (z, g1) = randn [batch_size, channels self, image_size self, image_size self] g;
          images = [z];
          t_span = linspace 0 1 sampling_steps
      in (case sample_loop (net self) sampling_steps (reversed t_span) z images of
            Inl e \<Rightarrow> Inl e
          | Inr (z, images) \<Rightarrow>
              let z = unnormalize_to_0_1 (clip (- 1) 1 z) in
              if return_all_steps
              then (case stack images of
                      Inl e \<Rightarrow> Inl e
                    | Inr st \<Rightarrow> Inr (z, Some (unnormalize_to_0_1 (clip (- 1) 1 st))))
              else Inr (z, None), g1))"

text \<open>The loop of \<^verbatim>\<open>RectifiedFlow.cond_sample\<close>.\<close>

fun cond_sample_loop ::
  "velocity_net \<Rightarrow> int list \<Rightarrow> real \<Rightarrow> nat \<Rightarrow> tensor list \<Rightarrow> tensor \<Rightarrow> tensor list
     \<Rightarrow> error + tensor \<times> tensor list" where
  "cond_sample_loop nt y cfg_scale sampling_steps [] z images = Inr (z, images)"
| "cond_sample_loop nt y cfg_scale sampling_steps (t # ts) z images =
     (case shape z of
        [] \<Rightarrow> Inl TypeError
      | len_z # _ \<Rightarrow>
          let t = repeat t len_z;
              v_t = forward_with_cfg nt z t y cfg_scale
          in (case tdiv_int v_t sampling_steps of
                Inl e \<Rightarrow> Inl e
              | Inr d \<Rightarrow>
                  (case tsub z d of
                     Inl e \<Rightarrow> Inl e
                   | Inr z' \<Rightarrow>
                       cond_sample_loop nt y cfg_scale sampling_steps ts z' (images @ [z']))))"

text \<open>\<^verbatim>\<open>RectifiedFlow.cond_sample\<close>; \<open>classes\<close> is a list of labels.\<close>

definition cond_sample ::
  "'a RectifiedFlow_scheme \<Rightarrow> int list \<Rightarrow> nat \<Rightarrow> real \<Rightarrow> bool \<Rightarrow> rng
     \<Rightarrow> (error + tensor \<times> tensor option) \<times> rng" where
  "cond_sample self classes sampling_steps cfg_scale return_all_steps g =
     (if \<not> use_cond self then (Inl AssertionError, g)
      else
        let y = classes;
            (z, g1) = randn [length classes, channels self, image_size self, image_size self] g;
            images = [z];
            t_span = linspace 0 1 sampling_steps
        in (case cond_sample_loop (net self) y cfg_scale sampling_steps (reversed t_span) z images of
              Inl e \<Rightarrow> Inl e
            | Inr (z, images) \<Rightarrow>
                let z = unnormalize_to_0_1 (clip (- 1) 1 z) in
                if return_all_steps
                then (case stack images of
                        Inl e \<Rightarrow> Inl e
                      | Inr st \<Rightarrow> Inr (z, Some (unnormalize_to_0_1 (clip (- 1) 1 st))))
                else Inr (z, None), g1))"

subsection \<open>LatentRectifiedFlow\<close>

record LatentRectifiedFlow = RectifiedFlow +
  vae :: autoencoder

text \<open>
  \<^verbatim>\<open>LatentRectifiedFlow.__init__\<close>; the pretrained autoencoder it loads is a
  parameter here.
\<close>

definition LatentRectifiedFlow_init ::
  "velocity_net \<Rightarrow> nat \<Rightarrow> nat \<Rightarrow> bool \<Rightarrow> autoencoder \<Rightarrow> LatentRectifiedFlow" where
  "LatentRectifiedFlow_init nt ch sz logit v =
     RectifiedFlow.extend (RectifiedFlow_init nt ch sz logit) (LatentRectifiedFlow.fields v)"

text \<open>
  \<^verbatim>\<open>encode\<close>: \<^verbatim>\<open>mul_\<close> scales the autoencoder's sample in place and returns it. The
  Python number \<open>0.13025\<close> is rounded to a float, and so is every product. The
  result is the scaled sample, the value the caller's tensor \<open>x\<close> holds after the
  call (the scaled sample too, when the sample is \<open>x\<close> itself), and the generator.
\<close>

definition encode :: "LatentRectifiedFlow \<Rightarrow> tensor \<Rightarrow> rng \<Rightarrow> tensor \<times> tensor \<times> rng" where
  "encode self x g =
     (let (l, shared, g1) = encode_sample (vae self) x g;
          r = tmap (\<lambda>a. fl32 (a * fl32 0.13025)) l
      in (r, if shared then r else x, g1))"

text \<open>
  \<^verbatim>\<open>decode\<close>: the quotient is a new tensor, each entry divided by the rounded
  constant and rounded, as the division kernel of the processor computes it.
\<close>

definition decode :: "LatentRectifiedFlow \<Rightarrow> tensor \<Rightarrow> tensor" where
  "decode self x = decode_sample (vae self) (tmap (\<lambda>a. fl32 (a / fl32 0.13025)) x)"

text \<open>\<^verbatim>\<open>LatentRectifiedFlow.forward\<close>.\<close>

definition latent_forward ::
  "LatentRectifiedFlow \<Rightarrow> tensor \<Rightarrow> int list option \<Rightarrow> rng \<Rightarrow> (error + real) \<times> rng" where
  "latent_forward self x c g =
     (if use_cond self \<and> c = None then (Inl AssertionError, g)
      else case shape x of
        [] \<Rightarrow> (Inl IndexError, g)
      | b # _ \<Rightarrow>
          let (t, g1) = (if logit_normal_sampling_t self
                         then (let (r, g') = randn [b] g in (tmap sigmoid r, g'))
                         else rand [b] g);
              t_b = rearrange_b111 t;
              x1 = normalize_to_neg1_1 x;
              (x2, x1', g2) = encode self x1 g1;
              (z, g3) = randn_like x2 g2
          in (bindE (tmul (tmap (\<lambda>a. 1 - a) t_b) x2) (\<lambda>l.
              bindE (tmul t_b z) (\<lambda>r.
              bindE (tadd l r) (\<lambda>z_t.
              let v_t = call3 (net self) z_t t c in
              bindE (tsub z x2) (\<lambda>target.
              mse_loss target v_t)))), g3))"

text \<open>The loop of \<^verbatim>\<open>LatentRectifiedFlow.sample\<close>.\<close>

fun latent_sample_loop ::
  "velocity_net \<Rightarrow> nat \<Rightarrow> tensor list \<Rightarrow> tensor \<Rightarrow> tensor list \<Rightarrow> error + tensor \<times> tensor list" where
  "latent_sample_loop nt sampling_steps [] z images = Inr (z, images)"
| "latent_sample_loop nt sampling_steps (t # ts) z images =
     (let v_t = call2 nt z t in
      (case tdiv_int v_t sampling_steps of
         Inl e \<Rightarrow> Inl e
       | Inr d \<Rightarrow>
           (case tsub z d of
              Inl e \<Rightarrow> Inl e
            | Inr z' \<Rightarrow> latent_sample_loop nt sampling_steps ts z' (images @ [z']))))"

text \<open>\<^verbatim>\<open>LatentRectifiedFlow.sample\<close>.\<close>

definition latent_sample ::
  "LatentRectifiedFlow \<Rightarrow> nat \<Rightarrow> nat \<Rightarrow> bool \<Rightarrow> rng
     \<Rightarrow> (error + tensor \<times> tensor option) \<times> rng" where
  "latent_sample self batch_size sampling_steps return_all_steps g =
     (let (z, g1) = randn [batch_size, channels self, image_size self, image_size self] g;
          images = [z];
          t_span = linspace 0 1 sampling_steps
      in (case latent_sample_loop (net self) sampling_steps (reversed t_span) z images of
            Inl e \<Rightarrow> Inl e
          | Inr (z, images) \<Rightarrow>
              let z = decode self z;
                  z = unnormalize_to_0_1 (clip (- 1) 1 z)
              in if return_all_steps
                 then (let all_steps = map (decode self) images in
                       case stack all_steps of
                         Inl e \<Rightarrow> Inl e
                       | Inr st \<Rightarrow> Inr (z, Some (unnormalize_to_0_1 (clip (- 1) 1 st))))
                 else Inr (z, None), g1))"

text \<open>The loop of \<^verbatim>\<open>LatentRectifiedFlow.cond_sample\<close>.\<close>

fun latent_cond_sample_loop ::
  "velocity_net \<Rightarrow> int list \<Rightarrow> real \<Rightarrow> nat \<Rightarrow> tensor list \<Rightarrow> tensor \<Rightarrow> tensor list
     \<Rightarrow> error + tensor \<times> tensor list" where
  "latent_cond_sample_loop nt y cfg_scale sampling_steps [] z images = Inr (z, images)"
| "latent_cond_sample_loop nt y cfg_scale sampling_steps (t # ts) z images =
     (case shape z of
        [] \<Rightarrow> Inl TypeError
      | len_z # _ \<Rightarrow>
          let t = repeat t len_z;
              v_t = forward_with_cfg nt z t y cfg_scale
          in (case tdiv_int v_t sampling_steps of
                Inl e \<Rightarrow> Inl e
              | Inr d \<Rightarrow>
                  (case tsub z d of
                     Inl e \<Rightarrow> Inl e
                   | Inr z' \<Rightarrow>
                       latent_cond_sample_loop nt y cfg_scale sampling_steps ts z' (images @ [z']))))"

text \<open>\<^verbatim>\<open>LatentRectifiedFlow.cond_sample\<close>.\<close>

definition latent_cond_sample ::
  "LatentRectifiedFlow \<Rightarrow> int list \<Rightarrow> nat \<Rightarrow> real \<Rightarrow> bool \<Rightarrow> rng
     \<Rightarrow> (error + tensor \<times> tensor option) \<times> rng" where
  "latent_cond_sample self classes sampling_steps cfg_scale return_all_steps g =
     (if \<not> use_cond self then (Inl AssertionError, g)
      else
        let y = classes;
            (z, g1) = randn [length classes, channels self, image_size self, image_size self] g;
            images = [z];
            t_span = linspace 0 1 sampling_steps
        in (case latent_cond_sample_loop (net self) y cfg_scale sampling_steps
                   (reversed t_span) z images of
              Inl e \<Rightarrow> Inl e
            | Inr (z, images) \<Rightarrow>
                let z = decode self z;
                    z = unnormalize_to_0_1 (clip (- 1) 1 z)
                in if return_all_steps
                   then (let all_steps = map (decode self) images in
                         case stack all_steps of
                           Inl e \<Rightarrow> Inl e
                         | Inr st \<Rightarrow> Inr (z, Some (unnormalize_to_0_1 (clip (- 1) 1 st))))
                   else Inr (z, None), g1))"

section \<open>The descriptions of the spec\<close>

subsection \<open>The training loss\<close>

text \<open>
  The time sample of \<^verbatim>\<open>forward\<close> (lines 31 to 34), one entry per sample of the batch:
  uniform draws, or the sigmoid of standard normal draws when
  \<^verbatim>\<open>logit_normal_sampling_t\<close> is set.
\<close>

definition draw_t :: "bool \<Rightarrow> nat \<Rightarrow> rng \<Rightarrow> tensor \<times> rng" where
  "draw_t logit_normal b g =
     (if logit_normal then (let (r, g1) = randn [b] g in (tmap sigmoid r, g1)) else rand [b] g)"

text \<open>
  \<open>z_t = (1 - t) * x + t * z\<close> with \<open>t\<close> broadcast over the channel and spatial
  dimensions: the entry of sample \<open>b\<close> at \<open>(c, h, w)\<close> is
  \<open>(1 - t[b]) * x[b, c, h, w] + t[b] * z[b, c, h, w]\<close>. In row-major order the entry at
  position \<open>i\<close> belongs to sample \<open>i div m\<close>, where \<open>m\<close> is the number of entries of
  one sample.
\<close>

definition interpolate :: "tensor \<Rightarrow> tensor \<Rightarrow> tensor \<Rightarrow> tensor" where
  "interpolate t x z =
     (let m = prod_list (tl (shape x)) in
      \<lparr>shape = shape x,
       entries = map (\<lambda>i. (1 - entries t ! (i div m)) * entries x ! i
                          + entries t ! (i div m) * entries z ! i)
                     [0..<prod_list (shape x)]\<rparr>)"

text \<open>
  The target displacement \<open>z - x\<close>, entry by entry.
\<close>

definition displacement :: "tensor \<Rightarrow> tensor \<Rightarrow> tensor" where
  "displacement z x =
     \<lparr>shape = shape x, entries = map (\<lambda>i. entries z ! i - entries x ! i) [0..<prod_list (shape x)]\<rparr>"

text \<open>
  The loss as the spec describes it, for the draws \<open>t\<close> and \<open>z\<close>: normalize \<open>x\<close>,
  interpolate, query the network, and return the mean-squared error between the
  prediction and the target displacement.
\<close>

definition loss_spec :: "velocity_net \<Rightarrow> tensor \<Rightarrow> int list option \<Rightarrow> tensor \<Rightarrow> tensor \<Rightarrow> error + real" where
  "loss_spec nt x c t z =
     (let x1 = normalize_to_neg1_1 x;
          z_t = interpolate t x1 z;
          v_t = call3 nt z_t t c
      in mse_loss v_t (displacement z x1))"

subsection \<open>The Euler sampler\<close>

text \<open>
  The time points of the spec: \<open>n\<close> evenly spaced values from one down to zero,
  with the spacing \<open>1 / (n - 1)\<close>. They are used for \<open>n \<ge> 2\<close> only: a single value
  has no spacing.
\<close>

definition descending_times :: "nat \<Rightarrow> real list" where
  "descending_times n = map (\<lambda>i. 1 - real i / real (n - 1)) [0..<n]"

text \<open>
  A sequence that starts at one, ends at zero and descends in equal steps.
\<close>

definition from_1_down_to_0 :: "real list \<Rightarrow> bool" where
  "from_1_down_to_0 ts =
     (ts \<noteq> [] \<and> hd ts = 1 \<and> last ts = 0 \<and>
      list_all (\<lambda>i. ts ! i - ts ! Suc i = 1 / real (length ts - 1)) [0..<length ts - 1])"

text \<open>
  The integration of the spec over a list of time points: at each one the velocity
  is queried at the current state and the state updated to \<open>z - v_t / n\<close>.
\<close>

fun euler_steps :: "(tensor \<Rightarrow> tensor \<Rightarrow> tensor) \<Rightarrow> nat \<Rightarrow> real list \<Rightarrow> tensor \<Rightarrow> error + tensor" where
  "euler_steps v n [] z = Inr z"
| "euler_steps v n (t # ts) z =
     (case tdiv_int (v z (scalar_tensor t)) n of
        Inl e \<Rightarrow> Inl e
      | Inr d \<Rightarrow> (case tsub z d of Inl e \<Rightarrow> Inl e | Inr z' \<Rightarrow> euler_steps v n ts z'))"

text \<open>
  One integrator for the four loops of the source, as the design notes of the spec
  ask for: \<open>q\<close> is the query of the velocity, and the list of states is kept.
\<close>

fun euler_loop ::
  "(tensor \<Rightarrow> tensor \<Rightarrow> error + tensor) \<Rightarrow> nat \<Rightarrow> tensor list \<Rightarrow> tensor \<Rightarrow> tensor list
     \<Rightarrow> error + tensor \<times> tensor list" where
  "euler_loop q n [] z images = Inr (z, images)"
| "euler_loop q n (t # ts) z images =
     (case q z t of
        Inl e \<Rightarrow> Inl e
      | Inr v_t \<Rightarrow>
          (case tdiv_int v_t n of
             Inl e \<Rightarrow> Inl e
           | Inr d \<Rightarrow>
               (case tsub z d of
                  Inl e \<Rightarrow> Inl e
                | Inr z' \<Rightarrow> euler_loop q n ts z' (images @ [z']))))"

text \<open>
  The query of \<^verbatim>\<open>cond_sample\<close>: the guided variant of the network, at the time
  repeated once per element of the batch.
\<close>

definition guided_query :: "velocity_net \<Rightarrow> int list \<Rightarrow> real \<Rightarrow> tensor \<Rightarrow> tensor \<Rightarrow> error + tensor" where
  "guided_query nt y cfg_scale z t =
     (case shape z of
        [] \<Rightarrow> Inl TypeError
      | len_z # _ \<Rightarrow> Inr (forward_with_cfg nt z (repeat t len_z) y cfg_scale))"

text \<open>
  What the samplers do after the loop, with a decoder \<open>dec\<close> applied to the final
  state and to every state of the trajectory before the clip and the remap.
\<close>

definition finish ::
  "(tensor \<Rightarrow> tensor) \<Rightarrow> bool \<Rightarrow> error + tensor \<times> tensor list \<Rightarrow> error + tensor \<times> tensor option" where
  "finish dec return_all_steps r =
     (case r of
        Inl e \<Rightarrow> Inl e
      | Inr (z, images) \<Rightarrow>
          let z' = unnormalize_to_0_1 (clip (- 1) 1 (dec z)) in
          if return_all_steps
          then (case stack (map dec images) of
                  Inl e \<Rightarrow> Inl e
                | Inr st \<Rightarrow> Inr (z', Some (unnormalize_to_0_1 (clip (- 1) 1 st))))
          else Inr (z', None))"

text \<open>
  \<^verbatim>\<open>sample\<close> with a decoder: the noise, the loop of \<^verbatim>\<open>RectifiedFlow.sample\<close>, and
  \<open>finish\<close>.
\<close>

definition sample_with ::
  "(tensor \<Rightarrow> tensor) \<Rightarrow> 'a RectifiedFlow_scheme \<Rightarrow> nat \<Rightarrow> nat \<Rightarrow> bool \<Rightarrow> rng
     \<Rightarrow> (error + tensor \<times> tensor option) \<times> rng" where
  "sample_with dec self batch_size n return_all_steps g =
     (let (z, g1) = randn [batch_size, channels self, image_size self, image_size self] g
      in (finish dec return_all_steps
            (sample_loop (net self) n (reversed (linspace 0 1 n)) z [z]), g1))"

text \<open>
  \<^verbatim>\<open>cond_sample\<close> with a decoder.
\<close>

definition cond_sample_with ::
  "(tensor \<Rightarrow> tensor) \<Rightarrow> 'a RectifiedFlow_scheme \<Rightarrow> int list \<Rightarrow> nat \<Rightarrow> real \<Rightarrow> bool \<Rightarrow> rng
     \<Rightarrow> (error + tensor \<times> tensor option) \<times> rng" where
  "cond_sample_with dec self classes n cfg_scale return_all_steps g =
     (if \<not> use_cond self then (Inl AssertionError, g)
      else
        let (z, g1) = randn [length classes, channels self, image_size self, image_size self] g
        in (finish dec return_all_steps
              (cond_sample_loop (net self) classes cfg_scale n (reversed (linspace 0 1 n)) z [z]),
            g1))"

text \<open>
  The plain conditional prediction \<^verbatim>\<open>net(z, t, y)\<close>, at the time repeated once per
  element of the batch.
\<close>

definition unguided_query :: "velocity_net \<Rightarrow> int list \<Rightarrow> tensor \<Rightarrow> tensor \<Rightarrow> error + tensor" where
  "unguided_query nt y z t =
     (case shape z of
        [] \<Rightarrow> Inl TypeError
      | len_z # _ \<Rightarrow> Inr (call3 nt z (repeat t len_z) (Some y)))"

text \<open>
  The conditional Euler integration without guidance: the noise, one Euler step per
  time point with the plain conditional prediction in place of the guided one, the
  clip and the remap. It checks no capability of the network.
\<close>

definition unguided_cond_sample ::
  "'a RectifiedFlow_scheme \<Rightarrow> int list \<Rightarrow> nat \<Rightarrow> bool \<Rightarrow> rng
     \<Rightarrow> (error + tensor \<times> tensor option) \<times> rng" where
  "unguided_cond_sample self classes n return_all_steps g =
     (let (z, g1) = randn [length classes, channels self, image_size self, image_size self] g
      in (finish (\<lambda>z. z) return_all_steps
            (euler_loop (unguided_query (net self) classes) n (reversed (linspace 0 1 n)) z [z]),
          g1))"

subsection \<open>The contract of the collaborators\<close>

text \<open>
  A velocity has the form of the state it is predicted for: the same shape and the
  same number of entries.
\<close>

definition same_form :: "tensor \<Rightarrow> tensor \<Rightarrow> bool" where
  "same_form z v = (shape v = shape z \<and> length (entries v) = length (entries z))"

section \<open>Example instances\<close>

text \<open>
  Networks, an autoencoder, a generator and a batch on which the theorems are
  evaluated. \<open>identity_net\<close> is unconditional and returns its input.
\<close>

definition identity_net :: velocity_net where
  "identity_net =
     \<lparr>num_classes = None, call3 = (\<lambda>z t c. z), call2 = (\<lambda>z t. z),
      forward_with_cfg = (\<lambda>z t y s. z)\<rparr>"

text \<open>
  A conditional network that returns its input.
\<close>

definition labelled_net :: velocity_net where
  "labelled_net = identity_net\<lparr>num_classes := Some 10\<rparr>"

text \<open>
  A network whose two-argument call returns the time it is queried at, in every entry.
\<close>

definition clock_net :: velocity_net where
  "clock_net =
     \<lparr>num_classes = None,
      call3 = (\<lambda>z t c. z),
      call2 = (\<lambda>z t. \<lparr>shape = shape z, entries = map (\<lambda>_. sum_list (entries t)) (entries z)\<rparr>),
      forward_with_cfg = (\<lambda>z t y s. z)\<rparr>"

text \<open>
  A conditional network with classifier-free guidance: the unconditional prediction
  is zero, the conditional one is the input, and the guided one is
  \<open>v_uncond + s * (v_cond - v_uncond)\<close>.
\<close>

definition guided_net :: velocity_net where
  "guided_net =
     \<lparr>num_classes = Some 10,
      call3 = (\<lambda>z t c. case c of None \<Rightarrow> tmap (\<lambda>a. 0) z | Some y \<Rightarrow> z),
      call2 = (\<lambda>z t. tmap (\<lambda>a. 0) z),
      forward_with_cfg = (\<lambda>z t y s. tmap (\<lambda>a. 0 + s * (a - 0)) z)\<rparr>"

text \<open>
  A network that returns the target displacement of \<open>example_batch\<close> under
  \<open>example_rng\<close>.
\<close>

definition oracle_net :: velocity_net where
  "oracle_net =
     \<lparr>num_classes = None,
      call3 = (\<lambda>z t c. \<lparr>shape = [1, 1, 1, 2], entries = [3 / 2, 0]\<rparr>),
      call2 = (\<lambda>z t. z),
      forward_with_cfg = (\<lambda>z t y s. z)\<rparr>"

text \<open>
  An autoencoder whose encoder and decoder are the identity; the sample is a new
  tensor.
\<close>

definition identity_vae :: autoencoder where
  "identity_vae = \<lparr>encode_sample = (\<lambda>x g. (x, False, g)), decode_sample = (\<lambda>x. x)\<rparr>"


text \<open>
  A generator: draw number \<open>k\<close> is \<open>k / 2\<close> as a normal draw and \<open>1 / 2\<close> as a
  uniform one.
\<close>

definition example_rng :: rng where
  "example_rng = \<lparr>gaussian = (\<lambda>k. real k / 2), uniform = (\<lambda>k. 1 / 2), drawn = 0\<rparr>"

text \<open>
  A batch of one image of two pixels.
\<close>

definition example_batch :: tensor where
  "example_batch = \<lparr>shape = [1, 1, 1, 2], entries = [0, 1]\<rparr>"



section \<open>Properties\<close>

subsection \<open>Broadcasting and entrywise operations\<close>

lemma chunks_Suc: "chunks k (Suc d) xs = take k xs # chunks k d (drop k xs)"
proof -
  have "[0..<Suc d] = 0 # map Suc [0..<d]"
    by (simp add: upt_conv_Cons map_Suc_upt del: upt_Suc)
  then show ?thesis
    by (simp add: chunks_def add.commute comp_def del: upt_Suc)
qed

lemma concat_chunks: "length xs = d * k \<Longrightarrow> concat (chunks k d xs) = xs"
proof (induction d arbitrary: xs)
  case 0
  then show ?case by (simp add: chunks_def)
next
  case (Suc d)
  have "length (drop k xs) = d * k" using Suc.prems by simp
  then have "concat (chunks k d (drop k xs)) = drop k xs" by (rule Suc.IH)
  then show ?case by (simp add: chunks_Suc)
qed

lemma chunks_length: "length xs = d * k \<Longrightarrow> c \<in> set (chunks k d xs) \<Longrightarrow> length c = k"
proof -
  assume len: "length xs = d * k" and "c \<in> set (chunks k d xs)"
  then obtain i where i: "i < d" "c = take k (drop (i * k) xs)"
    by (auto simp: chunks_def)
  have "Suc i * k \<le> d * k" using i(1) by (intro mult_le_mono1) simp
  then show ?thesis using i len by simp
qed

lemma broadcast_dims_same: "broadcast_dims s s = Some s"
  by (induction s) auto

lemma expand_same: "length xs = prod_list s \<Longrightarrow> expand s s xs = xs"
proof (induction s arbitrary: xs)
  case Nil
  then show ?case by simp
next
  case (Cons d ds)
  have len: "length xs = d * prod_list ds" using Cons.prems by simp
  have "map (expand ds ds) (chunks (prod_list ds) d xs) = chunks (prod_list ds) d xs"
    by (rule map_idI) (simp add: Cons.IH chunks_length[OF len])
  then show ?case by (simp add: concat_chunks[OF len])
qed

lemma concat_replicate_replicate:
  "concat (replicate e (replicate m t)) = replicate (e * m) t"
  by (induction e) (simp_all add: replicate_add)

lemma expand_ones: "length s = k \<Longrightarrow> expand (replicate k 1) s [t] = replicate (prod_list s) t"
proof (induction s arbitrary: k)
  case Nil
  then show ?case by simp
next
  case (Cons e es)
  then obtain k' where k: "k = Suc k'" "length es = k'" by (cases k) auto
  have ih: "expand (replicate k' 1) es [t] = replicate (prod_list es) t"
    using Cons.IH k by simp
  have one: "prod_list (replicate k' (Suc 0)) = Suc 0" by (induction k') auto
  show ?case
  proof (cases "e = 1")
    case True
    then show ?thesis using ih k one by (simp add: chunks_def)
  next
    case False
    then show ?thesis using ih k
      by (simp add: concat_replicate_replicate)
  qed
qed

lemma chunks_one: "length ts = B \<Longrightarrow> chunks (Suc 0) B ts = map (\<lambda>t. [t]) ts"
  by (auto simp: chunks_def list_eq_iff_nth_eq take_Suc_conv_app_nth hd_drop_conv_nth)

lemma expand_b111:
  assumes "length ts = B"
  shows "expand [B, 1, 1, 1] [B, C, H, W] ts = concat (map (replicate (C * H * W)) ts)"
proof -
  have "expand (replicate 3 1) [C, H, W] [t] = replicate (prod_list [C, H, W]) t" for t
    by (rule expand_ones) simp
  then have e: "expand [1, 1, 1] [C, H, W] [t] = replicate (C * H * W) t" for t
    by (simp add: numeral_3_eq_3 mult.assoc)
  have "expand [B, 1, 1, 1] [B, C, H, W] ts = concat (map (expand [1, 1, 1] [C, H, W]) (chunks 1 B ts))"
    by simp
  also have "\<dots> = concat (map (replicate (C * H * W)) ts)"
    using e by (simp add: chunks_one[OF assms] comp_def del: expand.simps)
  finally show ?thesis .
qed

lemma broadcast_dims_b111: "broadcast_dims [B, 1, 1, 1] [B, C, H, W] = Some [B, C, H, W]"
  by auto

lemma nth_concat_replicate:
  "i < length ts * m \<Longrightarrow> concat (map (replicate m) ts) ! i = ts ! (i div m)"
proof (induction ts arbitrary: i)
  case Nil
  then show ?case by simp
next
  case (Cons t ts)
  show ?case
  proof (cases "i < m")
    case True
    then show ?thesis by (simp add: nth_append)
  next
    case False
    then have "i - m < length ts * m" using Cons.prems by simp
    then have "concat (map (replicate m) ts) ! (i - m) = ts ! ((i - m) div m)" by (rule Cons.IH)
    moreover have "0 < m" using Cons.prems by (cases m) simp_all
    then have "i div m = Suc ((i - m) div m)" using False
      by (simp add: le_div_geq)
    ultimately show ?thesis using False by (simp add: nth_append)
  qed
qed

lemma length_concat_replicate: "length (concat (map (replicate m) ts)) = length ts * m"
  by (induction ts) simp_all

lemma pad_shape_same: "length s = r \<Longrightarrow> pad_shape r s = s"
  by (simp add: pad_shape_def)

lemma tbinop_b111:
  assumes "shape a = [B, 1, 1, 1]" "length (entries a) = B"
    and "shape b = [B, C, H, W]" "length (entries b) = B * m" "m = C * H * W"
  shows "tbinop f a b =
         Inr \<lparr>shape = [B, C, H, W],
              entries = map2 f (concat (map (replicate m) (entries a))) (entries b)\<rparr>"
proof -
  have "length (entries b) = prod_list [B, C, H, W]" using assms(4,5) by (simp add: mult.assoc)
  then have eb: "expand [B, C, H, W] [B, C, H, W] (entries b) = entries b"
    by (rule expand_same)
  have ea: "expand [B, 1, 1, 1] [B, C, H, W] (entries a) = concat (map (replicate m) (entries a))"
    unfolding assms(5) using assms(2) by (rule expand_b111)
  show ?thesis
    unfolding tbinop_def Let_def assms(1,3)
    by (simp only: pad_shape_same list.size max.idem broadcast_dims_b111 option.case ea eb)
qed

lemma tbinop_same:
  assumes "shape a = shape b" "wf_tensor a" "wf_tensor b"
  shows "tbinop f a b = Inr \<lparr>shape = shape a, entries = map2 f (entries a) (entries b)\<rparr>"
  using assms
  by (simp add: tbinop_def Let_def pad_shape_same broadcast_dims_same expand_same wf_tensor_def numel_def)

lemma broadcast_dims_sym: "broadcast_dims s s' = broadcast_dims s' s"
  by (induction s s' rule: broadcast_dims.induct) auto

lemma broadcast_dims_length:
  "broadcast_dims s s' = Some u \<Longrightarrow> length s = length u \<and> length s' = length u"
  by (induction s s' arbitrary: u rule: broadcast_dims.induct) (auto split: if_splits)

lemma sum_sq_swap:
  "sum_list (map (\<lambda>v. v\<^sup>2) (map2 (-) xs ys)) = sum_list (map (\<lambda>v::real. v\<^sup>2) (map2 (-) ys xs))"
proof (induction xs arbitrary: ys)
  case Nil
  then show ?case by simp
next
  case (Cons x xs)
  then show ?case by (cases ys) (simp_all add: power2_commute)
qed

lemma tsub_swap:
  "(tsub a b = Inl RuntimeError \<and> tsub b a = Inl RuntimeError) \<or>
   (\<exists>s xs ys. tsub a b = Inr \<lparr>shape = s, entries = map2 (-) xs ys\<rparr> \<and>
              tsub b a = Inr \<lparr>shape = s, entries = map2 (-) ys xs\<rparr>)"
proof -
  let ?r = "max (length (shape a)) (length (shape b))"
  have r: "max (length (shape b)) (length (shape a)) = ?r" by simp
  have s: "broadcast_dims (pad_shape ?r (shape b)) (pad_shape ?r (shape a))
         = broadcast_dims (pad_shape ?r (shape a)) (pad_shape ?r (shape b))"
    by (rule broadcast_dims_sym)
  show ?thesis
    unfolding tsub_def tbinop_def Let_def r s
    by (cases "broadcast_dims (pad_shape ?r (shape a)) (pad_shape ?r (shape b))") auto
qed

lemma mse_loss_sym: "mse_loss a b = mse_loss b a"
proof -
  consider (err) "tsub a b = Inl RuntimeError" "tsub b a = Inl RuntimeError"
    | (ok) s xs ys where "tsub a b = Inr \<lparr>shape = s, entries = map2 (-) xs ys\<rparr>"
        "tsub b a = Inr \<lparr>shape = s, entries = map2 (-) ys xs\<rparr>"
    using tsub_swap[of a b] by blast
  then show ?thesis
  proof cases
    case err
    then show ?thesis by (simp add: mse_loss_def bindE_def)
  next
    case (ok s xs ys)
    have e: "(map2 (-) xs ys = []) = (map2 (-) ys xs = [])"
      by (cases xs; cases ys) simp_all
    have l: "length (map2 (-) xs ys) = length (map2 (-) ys xs)"
      by (simp add: min.commute)
    show ?thesis
      unfolding mse_loss_def bindE_def ok
      by (simp only: sum.case tensor.select_convs e l sum_sq_swap)
  qed
qed

lemma tmap_tmap: "tmap f (tmap h a) = tmap (f \<circ> h) a"
  by (simp add: tmap_def)

lemma tmap_id:
  assumes "\<And>v. f v = v"
  shows "tmap f a = a"
proof -
  have "map f (entries a) = entries a"
    by (rule map_idI) (rule assms)
  then show ?thesis by (simp add: tmap_def)
qed

lemmas tensor_eval =
  tmap_def tadd_def tsub_def tmul_def tbinop_def pad_shape_def chunks_def tdiv_int_def
  clip_def stack_def select_def mse_loss_def bindE_def linspace_def reversed_def
  scalar_tensor_def repeat_def rearrange_b111_def randn_def rand_def randn_like_def
  normalize_to_neg1_1_def unnormalize_to_0_1_def numel_def wf_tensor_def
  Let_def split_beta numeral_2_eq_2 numeral_3_eq_3 power2_eq_square

subsection \<open>The training loss\<close>

lemma randn_shape: "shape (fst (randn s g)) = s" and randn_length: "length (entries (fst (randn s g))) = prod_list s"
  by (simp_all add: randn_def)

lemma rand_shape: "shape (fst (rand s g)) = s" and rand_length: "length (entries (fst (rand s g))) = prod_list s"
  by (simp_all add: rand_def)

lemma randn_wf: "wf_tensor (fst (randn s g))"
  by (simp add: randn_def wf_tensor_def numel_def)

lemma interpolate_eq:
  assumes t: "shape t = [B]" "length (entries t) = B"
    and x: "shape x = [B, C, H, W]" "length (entries x) = B * C * H * W"
    and z: "shape z = [B, C, H, W]" "length (entries z) = B * C * H * W"
  shows "bindE (tmul (tmap (\<lambda>a. 1 - a) (rearrange_b111 t)) x) (\<lambda>l.
         bindE (tmul (rearrange_b111 t) z) (\<lambda>r. bindE (tadd l r) f))
       = f (interpolate t x z)"
proof -
  define m where "m = C * H * W"
  define T where "T = concat (map (replicate m) (entries t))"
  define T1 where "T1 = concat (map (replicate m) (entries (tmap (\<lambda>a. 1 - a) (rearrange_b111 t))))"
  have xm: "length (entries x) = B * m" and zm: "length (entries z) = B * m"
    by (simp_all add: m_def x z mult.assoc)
  have n: "prod_list (shape x) = B * m" "prod_list (tl (shape x)) = m"
    by (simp_all add: x m_def mult.assoc)
  have e1: "entries (tmap (\<lambda>a. 1 - a) (rearrange_b111 t)) = map (\<lambda>a. 1 - a) (entries t)"
    by (simp add: tmap_def rearrange_b111_def)
  let ?l = "\<lparr>shape = [B, C, H, W], entries = map2 (*) T1 (entries x)\<rparr>"
  let ?r = "\<lparr>shape = [B, C, H, W], entries = map2 (*) T (entries z)\<rparr>"
  have lT: "length T = B * m" "length T1 = B * m"
    unfolding T_def T1_def e1
    by (simp_all only: length_concat_replicate length_map t(2))
  have nT: "T ! i = entries t ! (i div m)" "T1 ! i = 1 - entries t ! (i div m)" if "i < B * m" for i
  proof -
    have d: "i div m < B" using that by (simp add: less_mult_imp_div_less)
    have i': "i < length (entries t) * m" "i < length (map (\<lambda>a. 1 - a) (entries t)) * m"
      using that t(2) by simp_all
    show "T ! i = entries t ! (i div m)"
      unfolding T_def by (rule nth_concat_replicate[OF i'(1)])
    show "T1 ! i = 1 - entries t ! (i div m)"
      unfolding T1_def e1 using nth_concat_replicate[OF i'(2)] d t(2) by simp
  qed
  have l: "tmul (tmap (\<lambda>a. 1 - a) (rearrange_b111 t)) x = Inr ?l"
    unfolding tmul_def T1_def
    by (rule tbinop_b111[where B = B and m = m])
      (simp_all add: tmap_def rearrange_b111_def t x xm m_def)
  have r: "tmul (rearrange_b111 t) z = Inr ?r"
    unfolding tmul_def T_def
    by (rule tbinop_b111[where B = B and m = m, THEN trans])
      (simp_all add: rearrange_b111_def t z zm m_def)
  have p: "prod_list [B, C, H, W] = B * m"
    by (simp add: m_def mult.assoc)
  have wl: "wf_tensor ?l" and wr: "wf_tensor ?r"
    unfolding wf_tensor_def numel_def
    by (simp_all only: tensor.select_convs p length_map length_zip lT xm zm min.idem)
  have a: "tadd ?l ?r = Inr \<lparr>shape = [B, C, H, W], entries = map2 (+) (entries ?l) (entries ?r)\<rparr>"
    unfolding tadd_def
    by (rule tbinop_same[OF _ wl wr, THEN trans]) simp_all
  have "map2 (+) (entries ?l) (entries ?r) = entries (interpolate t x z)"
  proof (rule nth_equalityI)
    show "length (map2 (+) (entries ?l) (entries ?r)) = length (entries (interpolate t x z))"
      by (simp add: interpolate_def Let_def lT xm zm n)
  next
    fix i assume "i < length (map2 (+) (entries ?l) (entries ?r))"
    then have i: "i < B * m" by (simp add: lT xm zm)
    show "map2 (+) (entries ?l) (entries ?r) ! i = entries (interpolate t x z) ! i"
      using i nT[OF i] by (simp add: interpolate_def Let_def lT xm zm n)
  qed
  then have "\<lparr>shape = [B, C, H, W], entries = map2 (+) (entries ?l) (entries ?r)\<rparr> = interpolate t x z"
    by (simp add: interpolate_def Let_def x)
  then show ?thesis
    by (simp only: l r a bindE_def sum.case)
qed

lemma displacement_eq:
  assumes x: "shape x = s" "length (entries x) = prod_list s"
    and z: "shape z = s" "length (entries z) = prod_list s"
  shows "tsub z x = Inr (displacement z x)"
proof -
  have "map2 (-) (entries z) (entries x) = map (\<lambda>i. entries z ! i - entries x ! i) [0..<prod_list s]"
    by (rule nth_equalityI) (simp_all add: x z)
  then show ?thesis
    unfolding tsub_def
    by (subst tbinop_same) (simp_all add: wf_tensor_def numel_def x z displacement_def)
qed

lemma forward_eval:
  assumes "shape x = [B, C, H, W]" and "wf_tensor x" and "use_cond self \<longrightarrow> c \<noteq> None"
  shows "forward self x c g =
     (let (t, g1) = draw_t (logit_normal_sampling_t self) B g;
          (z, g2) = randn [B, C, H, W] g1;
          x1 = normalize_to_neg1_1 x
      in (mse_loss (displacement z x1) (call3 (net self) (interpolate t x1 z) t c), g2))"
proof -
  define t where "t = fst (draw_t (logit_normal_sampling_t self) B g)"
  define g1 where "g1 = snd (draw_t (logit_normal_sampling_t self) B g)"
  define z where "z = fst (randn [B, C, H, W] g1)"
  define x1 where "x1 = normalize_to_neg1_1 x"
  have ts: "shape t = [B]" "length (entries t) = B"
    by (simp_all add: t_def draw_t_def randn_def rand_def tmap_def split_beta)
  have xs: "shape x1 = [B, C, H, W]" "length (entries x1) = B * C * H * W"
    using assms(1,2)
    by (simp_all add: x1_def normalize_to_neg1_1_def tmap_def wf_tensor_def numel_def mult.assoc)
  have zs: "shape z = [B, C, H, W]" "length (entries z) = B * C * H * W"
    by (simp_all add: z_def randn_def mult.assoc)
  have xp: "length (entries x1) = prod_list [B, C, H, W]"
    and zp: "length (entries z) = prod_list [B, C, H, W]"
    using xs zs by (simp_all add: mult.assoc)
  have d: "tsub z x1 = Inr (displacement z x1)"
    by (rule displacement_eq[OF xs(1) xp zs(1) zp])
  have body: "bindE (tmul (tmap (\<lambda>a. 1 - a) (rearrange_b111 t)) x1) (\<lambda>l.
              bindE (tmul (rearrange_b111 t) z) (\<lambda>r.
              bindE (tadd l r) (\<lambda>z_t.
              let v_t = call3 (net self) z_t t c in
              bindE (tsub z x1) (\<lambda>target.
              mse_loss target v_t))))
            = mse_loss (displacement z x1) (call3 (net self) (interpolate t x1 z) t c)"
    unfolding interpolate_eq[OF ts xs zs]
    by (simp only: Let_def d bindE_def sum.case)
  have lhs: "forward self x c g =
      (bindE (tmul (tmap (\<lambda>a. 1 - a) (rearrange_b111 t)) x1) (\<lambda>l.
       bindE (tmul (rearrange_b111 t) z) (\<lambda>r.
       bindE (tadd l r) (\<lambda>z_t.
       let v_t = call3 (net self) z_t t c in
       bindE (tsub z x1) (\<lambda>target.
       mse_loss target v_t)))), snd (randn [B, C, H, W] g1))"
  proof -
    have ng: "\<not> (use_cond self \<and> c = None)" using assms(3) by simp
    show ?thesis
      unfolding forward_def if_not_P[OF ng]
      by (simp add: assms(1) randn_like_def Let_def split_beta draw_t_def
          g1_def t_def z_def x1_def)
  qed
  have rhs: "(let (t, g1) = draw_t (logit_normal_sampling_t self) B g;
          (z, g2) = randn [B, C, H, W] g1;
          x1 = normalize_to_neg1_1 x
      in (mse_loss (displacement z x1) (call3 (net self) (interpolate t x1 z) t c), g2))
     = (mse_loss (displacement z x1) (call3 (net self) (interpolate t x1 z) t c),
        snd (randn [B, C, H, W] g1))"
    by (simp add: Let_def split_beta g1_def t_def z_def x1_def)
  show ?thesis
    unfolding lhs rhs body ..
qed

text \<open>
  C1. For every batch \<open>x\<close> of shape \<open>(B, C, H, W)\<close> and every \<open>c\<close> that satisfies the
  label precondition, \<^verbatim>\<open>forward\<close> returns the loss of the spec: with \<open>t\<close> drawn per
  sample (uniform, or the sigmoid of a standard normal draw, as configured) and the
  noise \<open>z\<close> drawn with the shape of \<open>x\<close>, it normalizes \<open>x\<close>, forms
  \<open>z_t = (1 - t) * x + t * z\<close> with \<open>t\<close> broadcast over channels and pixels, queries
  \<open>net(z_t, t, c)\<close> and returns the mean-squared error between the prediction and
  \<open>z - x\<close>. The source draws \<open>t\<close> before \<open>z\<close>; the generator after the call is the
  one after both draws.
\<close>
theorem forward_computes_spec_loss:
  assumes "shape x = [B, C, H, W]" and "wf_tensor x" and "use_cond self \<longrightarrow> c \<noteq> None"
  shows "forward self x c g =
     (let (t, g1) = draw_t (logit_normal_sampling_t self) B g;
          (z, g2) = randn [B, C, H, W] g1
      in (loss_spec (net self) x c t z, g2))"
  unfolding forward_eval[OF assms] loss_spec_def
  by (simp add: Let_def split_beta mse_loss_sym[of "displacement _ _"])

text \<open>
  The loss of C1 on \<open>example_batch\<close>: \<open>t = 1/2\<close>, \<open>z = (1/2, 1)\<close>, the normalized batch
  is \<open>(-1, 1)\<close>, so \<open>z_t = (-1/4, 1)\<close>, the target is \<open>(3/2, 0)\<close> and the loss is
  \<open>((7/4)\<^sup>2 + 1) / 2 = 65/32\<close>.
\<close>
theorem forward_computes_spec_loss_witness:
  "shape example_batch = [1, 1, 1, 2] \<and> wf_tensor example_batch \<and>
   fst (forward (RectifiedFlow_init identity_net 1 1 False) example_batch None example_rng)
     = Inr (65 / 32)"
proof -
  let ?m = "RectifiedFlow_init identity_net 1 1 False"
  have h: "shape example_batch = [1, 1, 1, 2]" "wf_tensor example_batch"
    "use_cond ?m \<longrightarrow> (None :: int list option) \<noteq> None"
    by (simp_all add: example_batch_def wf_tensor_def numel_def RectifiedFlow_init_def identity_net_def)
  have "fst (let (t, g1) = draw_t (logit_normal_sampling_t ?m) 1 example_rng;
          (z, g2) = randn [1, 1, 1, 2] g1
      in (loss_spec (net ?m) example_batch None t z, g2)) = Inr (65 / 32)"
    by (simp add: RectifiedFlow_init_def draw_t_def loss_spec_def interpolate_def displacement_def
        identity_net_def example_batch_def example_rng_def tensor_eval)
  then show ?thesis
    using h(1,2) forward_computes_spec_loss[OF h, of example_rng] by simp
qed

subsection \<open>Values of the loss\<close>

lemma mse_loss_same:
  assumes "shape a = shape b" "wf_tensor a" "wf_tensor b" "0 < numel a"
  shows "mse_loss a b =
     Inr (sum_list (map (\<lambda>v. v\<^sup>2) (map2 (-) (entries a) (entries b))) / real (numel a))"
proof -
  have "tsub a b = Inr \<lparr>shape = shape a, entries = map2 (-) (entries a) (entries b)\<rparr>"
    unfolding tsub_def using assms(1-3) by (rule tbinop_same)
  moreover have "length (map2 (-) (entries a) (entries b)) = numel a"
    using assms(1-3) by (simp add: wf_tensor_def numel_def)
  ultimately show ?thesis
    using assms(4) by (auto simp: mse_loss_def bindE_def)
qed

lemma sum_squares_nonneg: "0 \<le> sum_list (map (\<lambda>v::real. v\<^sup>2) xs)"
  by (rule sum_list_nonneg) auto

lemma sum_squares_zero: "sum_list (map (\<lambda>v::real. v\<^sup>2) (map2 (-) xs xs)) = 0"
  by (induction xs) simp_all

lemma mse_loss_nonneg:
  assumes "shape a = shape b" "wf_tensor a" "wf_tensor b" "0 < numel a"
  shows "\<exists>v. mse_loss a b = Inr v \<and> 0 \<le> v"
proof -
  have "0 \<le> sum_list (map (\<lambda>v. v\<^sup>2) (map2 (-) (entries a) (entries b))) / real (numel a)"
    by (intro divide_nonneg_nonneg sum_squares_nonneg) simp
  then show ?thesis
    using mse_loss_same[OF assms] by blast
qed

lemma mse_loss_zero:
  assumes "wf_tensor a" "0 < numel a"
  shows "mse_loss a a = Inr 0"
  using mse_loss_same[OF refl assms(1) assms(1) assms(2)]
  by (simp only: sum_squares_zero div_0)

lemma displacement_form:
  "shape (displacement z x) = shape x" "wf_tensor (displacement z x)"
  by (simp_all add: displacement_def wf_tensor_def numel_def)

lemma interpolate_form:
  "shape (interpolate t x z) = shape x" "wf_tensor (interpolate t x z)"
  by (simp_all add: interpolate_def Let_def wf_tensor_def numel_def)

text \<open>
  C8, as amended. For a batch of shape \<open>(B, C, H, W)\<close> with at least one entry and
  admissible labels, the loss is a non-negative number when the network returns a
  velocity of the form of \<open>z_t\<close>, and it is zero when the network returns exactly the
  target displacement \<open>z - x\<close>.
\<close>
theorem loss_nonnegative:
  assumes "shape x = [B, C, H, W]" and "wf_tensor x" and "0 < numel x"
    and "use_cond self \<longrightarrow> c \<noteq> None"
  shows "let (t, g1) = draw_t (logit_normal_sampling_t self) B g;
             (z, g2) = randn [B, C, H, W] g1;
             x1 = normalize_to_neg1_1 x;
             z_t = interpolate t x1 z
         in (same_form z_t (call3 (net self) z_t t c)
               \<longrightarrow> (\<exists>v. fst (forward self x c g) = Inr v \<and> 0 \<le> v)) \<and>
            (call3 (net self) z_t t c = displacement z x1
               \<longrightarrow> fst (forward self x c g) = Inr 0)"
proof -
  define t where "t = fst (draw_t (logit_normal_sampling_t self) B g)"
  define g1 where "g1 = snd (draw_t (logit_normal_sampling_t self) B g)"
  define z where "z = fst (randn [B, C, H, W] g1)"
  define x1 where "x1 = normalize_to_neg1_1 x"
  define z_t where "z_t = interpolate t x1 z"
  define v_t where "v_t = call3 (net self) z_t t c"
  define target where "target = displacement z x1"
  have f: "fst (forward self x c g) = mse_loss target v_t"
    unfolding forward_eval[OF assms(1,2,4)]
    by (simp add: Let_def split_beta t_def g1_def z_def x1_def z_t_def v_t_def target_def)
  have x1: "shape x1 = shape x" "numel x1 = numel x"
    by (simp_all add: x1_def normalize_to_neg1_1_def tmap_def numel_def)
  have tg: "shape target = shape x" "wf_tensor target" "0 < numel target"
    using assms(3) x1 by (simp_all add: target_def displacement_form numel_def)
  have zt: "shape z_t = shape x" "wf_tensor z_t"
    using x1 by (simp_all add: z_t_def interpolate_form)
  have a: "\<exists>v. mse_loss target v_t = Inr v \<and> 0 \<le> v" if "same_form z_t v_t"
  proof -
    have "shape target = shape v_t" "wf_tensor v_t"
      using that tg zt by (simp_all add: same_form_def wf_tensor_def numel_def)
    from mse_loss_nonneg[OF this(1) tg(2) this(2) tg(3)] show ?thesis .
  qed
  have b: "mse_loss target v_t = Inr 0" if "v_t = target"
    unfolding that by (rule mse_loss_zero[OF tg(2,3)])
  show ?thesis
    using a b unfolding f
    by (simp add: Let_def split_beta t_def g1_def z_def x1_def z_t_def v_t_def target_def)
qed

theorem loss_nonnegative_witness:
  "(\<exists>v. fst (forward (RectifiedFlow_init identity_net 1 1 False) example_batch None example_rng)
          = Inr v \<and> 0 \<le> v) \<and>
   fst (forward (RectifiedFlow_init oracle_net 1 1 False) example_batch None example_rng) = Inr 0"
proof -
  let ?m = "RectifiedFlow_init identity_net 1 1 False"
  let ?o = "RectifiedFlow_init oracle_net 1 1 False"
  have h: "shape example_batch = [1, 1, 1, 2]" "wf_tensor example_batch" "0 < numel example_batch"
    by (simp_all add: example_batch_def wf_tensor_def numel_def)
  have c: "use_cond ?m \<longrightarrow> (None :: int list option) \<noteq> None"
    "use_cond ?o \<longrightarrow> (None :: int list option) \<noteq> None"
    by (simp_all add: RectifiedFlow_init_def identity_net_def oracle_net_def)
  have 1: "\<exists>v. fst (forward ?m example_batch None example_rng) = Inr v \<and> 0 \<le> v"
    using loss_nonnegative[OF h c(1), of example_rng]
    by (simp add: Let_def split_beta same_form_def RectifiedFlow_init_def identity_net_def)
  have d: "displacement (fst (randn [1, 1, 1, 2] (snd (draw_t False 1 example_rng))))
             (normalize_to_neg1_1 example_batch)
           = \<lparr>shape = [1, 1, 1, 2], entries = [3 / 2, 0]\<rparr>"
    by (simp add: draw_t_def displacement_def example_batch_def example_rng_def tensor_eval)
  have 2: "fst (forward ?o example_batch None example_rng) = Inr 0"
    using loss_nonnegative[OF h c(2), of example_rng] d
    by (simp add: Let_def split_beta RectifiedFlow_init_def oracle_net_def)
  show ?thesis using 1 2 by simp
qed

text \<open>
  C8 as stated fails on a batch without images: the mean over no entries is
  \<open>0 / 0\<close>, not a number, and so not a non-negative one.
\<close>
theorem loss_empty_batch_counterexample:
  "fst (forward (RectifiedFlow_init identity_net 1 1 False) \<lparr>shape = [0, 1, 1, 1], entries = []\<rparr>
          None example_rng) = Inl DivisionByZero"
  by (simp add: forward_def RectifiedFlow_init_def identity_net_def example_rng_def
      rand_def randn_def randn_like_def rearrange_b111_def normalize_to_neg1_1_def tmap_def
      tmul_def tadd_def tsub_def tbinop_def pad_shape_def chunks_def bindE_def mse_loss_def)

subsection \<open>The Euler loops and their time points\<close>

lemma sample_loop_euler:
  "sample_loop nt n ts z images = euler_loop (\<lambda>z t. Inr (call2 nt z t)) n ts z images"
  by (induction ts arbitrary: z images) (simp_all split: sum.splits)

lemma cond_sample_loop_euler:
  "cond_sample_loop nt y cfg n ts z images = euler_loop (guided_query nt y cfg) n ts z images"
  by (induction ts arbitrary: z images) (simp_all add: guided_query_def split: sum.splits list.splits)

lemma latent_sample_loop_eq: "latent_sample_loop nt n ts z images = sample_loop nt n ts z images"
  by (induction ts arbitrary: z images) (simp_all split: sum.splits)

lemma latent_cond_sample_loop_eq:
  "latent_cond_sample_loop nt y cfg n ts z images = cond_sample_loop nt y cfg n ts z images"
  by (induction ts arbitrary: z images) (simp_all split: sum.splits list.splits)

lemma sample_finish:
  "sample self B n ras g =
     (let (z, g1) = randn [B, channels self, image_size self, image_size self] g
      in (finish (\<lambda>z. z) ras (sample_loop (net self) n (reversed (linspace 0 1 n)) z [z]), g1))"
  by (simp add: sample_def finish_def Let_def split_beta split: sum.splits)

lemma latent_sample_finish:
  "latent_sample self B n ras g =
     (let (z, g1) = randn [B, channels self, image_size self, image_size self] g
      in (finish (decode self) ras (sample_loop (net self) n (reversed (linspace 0 1 n)) z [z]), g1))"
  by (simp add: latent_sample_def finish_def Let_def split_beta latent_sample_loop_eq split: sum.splits)

lemma cond_sample_finish:
  "cond_sample self cl n cfg ras g =
     (if \<not> use_cond self then (Inl AssertionError, g) else
      let (z, g1) = randn [length cl, channels self, image_size self, image_size self] g
      in (finish (\<lambda>z. z) ras (cond_sample_loop (net self) cl cfg n (reversed (linspace 0 1 n)) z [z]), g1))"
  by (simp add: cond_sample_def finish_def Let_def split_beta split: sum.splits)

lemma latent_cond_sample_finish:
  "latent_cond_sample self cl n cfg ras g =
     (if \<not> use_cond self then (Inl AssertionError, g) else
      let (z, g1) = randn [length cl, channels self, image_size self, image_size self] g
      in (finish (decode self) ras (cond_sample_loop (net self) cl cfg n (reversed (linspace 0 1 n)) z [z]), g1))"
  by (simp add: latent_cond_sample_def finish_def Let_def split_beta latent_cond_sample_loop_eq split: sum.splits)

lemma euler_loop_images:
  "euler_loop q n ts z im =
     (case euler_loop q n ts z [] of Inl e \<Rightarrow> Inl e | Inr (zf, new) \<Rightarrow> Inr (zf, im @ new))"
proof (induction ts arbitrary: z im)
  case Nil
  then show ?case by simp
next
  case (Cons t ts)
  have a: "euler_loop q n ts z' (im @ [z']) =
       (case euler_loop q n ts z' [] of Inl e \<Rightarrow> Inl e | Inr (zf, new) \<Rightarrow> Inr (zf, im @ z' # new))" for z'
    using Cons.IH[of z' "im @ [z']"] by (simp split: sum.splits)
  have b: "euler_loop q n ts z' [z'] =
       (case euler_loop q n ts z' [] of Inl e \<Rightarrow> Inl e | Inr (zf, new) \<Rightarrow> Inr (zf, z' # new))" for z'
    using Cons.IH[of z' "[z']"] by (simp split: sum.splits)
  show ?case
    by (simp add: a b split: sum.splits)
qed

lemma euler_loop_fst:
  "map_sum id fst (euler_loop (\<lambda>z t. Inr (v z t)) n (map scalar_tensor ts) z im) = euler_steps v n ts z"
  by (induction ts arbitrary: z im) (simp_all split: sum.splits)

lemma euler_loop_take:
  assumes "euler_loop q n ts z [] = Inr (zf, new)" and "k \<le> length ts"
  shows "euler_loop q n (take k ts) z [] = Inr ((z # new) ! k, take k new)"
  using assms
proof (induction ts arbitrary: z k new)
  case Nil
  then show ?case by simp
next
  case (Cons t ts)
  show ?case
  proof (cases k)
    case 0
    then show ?thesis by simp
  next
    case (Suc k')
    from Cons.prems(1) obtain v d z' where s: "q z t = Inr v" "tdiv_int v n = Inr d"
        "tsub z d = Inr z'" "euler_loop q n ts z' [z'] = Inr (zf, new)"
      by (auto split: sum.splits)
    from s(4) obtain new' where n: "euler_loop q n ts z' [] = Inr (zf, new')" "new = z' # new'"
      using euler_loop_images[of q n ts z' "[z']"] by (auto split: sum.splits)
    have "k' \<le> length ts" using Cons.prems(2) Suc by simp
    from Cons.IH[OF n(1) this]
    have "euler_loop q n (take k' ts) z' [] = Inr ((z' # new') ! k', take k' new')" .
    then have "euler_loop q n (take k' ts) z' [z'] = Inr ((z' # new') ! k', z' # take k' new')"
      using euler_loop_images[of q n "take k' ts" z' "[z']"] by simp
    then show ?thesis
      by (simp add: Suc s n(2))
  qed
qed

lemma length_reversed_linspace: "length (reversed (linspace a b n)) = n"
  by (simp add: reversed_def linspace_def)

lemma reversed_linspace_zero: "reversed (linspace a b 0) = []"
  by (simp add: reversed_def linspace_def)

lemma linspace_nonempty: "reversed (linspace 0 1 n) = [] \<or> n \<noteq> 0"
  using length_reversed_linspace[of 0 1 n] by (cases n) auto

lemma rev_linspace:
  assumes "2 \<le> n"
  shows "rev (entries (linspace 0 1 n)) = descending_times n"
proof (rule nth_equalityI)
  show "length (rev (entries (linspace 0 1 n))) = length (descending_times n)"
    using assms by (simp add: linspace_def descending_times_def)
next
  fix i assume "i < length (rev (entries (linspace 0 1 n)))"
  then have i: "i < n" using assms by (simp add: linspace_def)
  have e: "entries (linspace 0 1 n) = map (\<lambda>i. real i * (1 / real (n - 1))) [0..<n]"
    using assms by (simp add: linspace_def)
  have "real (n - Suc i) / real (n - 1) = 1 - real i / real (n - 1)"
    using i assms by (simp add: of_nat_diff field_simps)
  then show "rev (entries (linspace 0 1 n)) ! i = descending_times n ! i"
    using i by (simp add: e rev_nth descending_times_def)
qed

lemma descending_times_ok:
  assumes "2 \<le> n"
  shows "length (descending_times n) = n" and "from_1_down_to_0 (descending_times n)"
proof -
  show l: "length (descending_times n) = n" by (simp add: descending_times_def)
  have h: "hd (descending_times n) = 1"
    using assms by (simp add: descending_times_def hd_map)
  have "last (descending_times n) = 1 - real (n - 1) / real (n - 1)"
    using assms by (simp add: descending_times_def last_map)
  then have la: "last (descending_times n) = 0" using assms by simp
  have "descending_times n ! i - descending_times n ! Suc i = 1 / real (n - 1)" if "i < n - 1" for i
    using that by (simp add: descending_times_def field_simps)
  then have "list_all (\<lambda>i. descending_times n ! i - descending_times n ! Suc i
                 = 1 / real (length (descending_times n) - 1)) [0..<length (descending_times n) - 1]"
    by (simp add: list_all_iff l)
  then show "from_1_down_to_0 (descending_times n)"
    unfolding from_1_down_to_0_def using h la l assms by auto
qed

text \<open>
  C2, as amended. \<^verbatim>\<open>sample\<close> draws the noise of shape
  \<open>(batch_size, channels, image_size, image_size)\<close>, runs one Euler step
  \<open>z \<leftarrow> z - net(z, t) / n\<close> for each of the \<open>n\<close> time points
  \<^verbatim>\<open>reversed(linspace(0, 1, n))\<close>, clips the result to \<open>[-1, 1]\<close> and maps it to
  \<open>[0, 1]\<close>; with \<^verbatim>\<open>return_all_steps\<close> the image is the same unless stacking the
  trajectory fails. For \<open>n \<ge> 2\<close> the time points are the \<open>n\<close> evenly spaced values
  from one down to zero; for \<open>n = 1\<close> the only time point is zero.
\<close>
theorem sample_euler_integration:
  "((ras \<and> fst (sample self B n ras g) = Inl RuntimeError) \<or>
    map_sum id fst (fst (sample self B n ras g)) =
      (case euler_steps (call2 (net self)) n (rev (entries (linspace 0 1 n)))
              (fst (randn [B, channels self, image_size self, image_size self] g)) of
         Inl e \<Rightarrow> Inl e
       | Inr z \<Rightarrow> Inr (unnormalize_to_0_1 (clip (- 1) 1 z)))) \<and>
   snd (sample self B n ras g) = snd (randn [B, channels self, image_size self, image_size self] g) \<and>
   length (rev (entries (linspace 0 1 n))) = n \<and>
   (2 \<le> n \<longrightarrow> rev (entries (linspace 0 1 n)) = descending_times n \<and>
               from_1_down_to_0 (descending_times n)) \<and>
   (n = 1 \<longrightarrow> rev (entries (linspace 0 1 n)) = [0])"
proof -
  let ?z0 = "fst (randn [B, channels self, image_size self, image_size self] g)"
  let ?ts = "rev (entries (linspace 0 1 n))"
  let ?loop = "euler_loop (\<lambda>z t. Inr (call2 (net self) z t)) n (map scalar_tensor ?ts) ?z0 [?z0]"
  have s: "fst (sample self B n ras g) = finish (\<lambda>z. z) ras ?loop"
    by (simp add: sample_finish split_beta sample_loop_euler reversed_def)
  have e: "map_sum id fst ?loop = euler_steps (call2 (net self)) n ?ts ?z0"
    by (rule euler_loop_fst)
  have "(ras \<and> finish (\<lambda>z. z) ras ?loop = Inl RuntimeError) \<or>
        map_sum id fst (finish (\<lambda>z. z) ras ?loop) =
          (case map_sum id fst ?loop of Inl e \<Rightarrow> Inl e
           | Inr z \<Rightarrow> Inr (unnormalize_to_0_1 (clip (- 1) 1 z)))"
    by (cases ?loop; cases ras)
      (auto simp: finish_def stack_def Let_def split: list.splits sum.splits)
  then have a: "(ras \<and> fst (sample self B n ras g) = Inl RuntimeError) \<or>
    map_sum id fst (fst (sample self B n ras g)) =
      (case euler_steps (call2 (net self)) n ?ts ?z0 of
         Inl e \<Rightarrow> Inl e
       | Inr z \<Rightarrow> Inr (unnormalize_to_0_1 (clip (- 1) 1 z)))"
    unfolding s e .
  have b: "snd (sample self B n ras g) = snd (randn [B, channels self, image_size self, image_size self] g)"
    by (simp add: sample_finish split_beta)
  have c: "length ?ts = n" by (simp add: linspace_def)
  have d: "2 \<le> n \<longrightarrow> ?ts = descending_times n \<and> from_1_down_to_0 (descending_times n)"
    using rev_linspace descending_times_ok(2) by simp
  have f: "n = 1 \<longrightarrow> ?ts = [0]" by (simp add: linspace_def)
  show ?thesis using a b c d f by blast
qed

text \<open>
  Two steps on the network that returns its time: the time points are \<open>1, 0\<close>, the
  state goes from \<open>0\<close> to \<open>-1/2\<close> and stays, and the image is \<open>1/4\<close>.
\<close>
theorem sample_euler_integration_witness:
  "rev (entries (linspace 0 1 2)) = [1, 0] \<and> from_1_down_to_0 (descending_times 2) \<and>
   map_sum id fst (fst (sample (RectifiedFlow_init clock_net 1 1 False) 1 2 False example_rng))
     = Inr \<lparr>shape = [1, 1, 1, 1], entries = [1 / 4]\<rparr>"
proof -
  let ?m = "RectifiedFlow_init clock_net 1 1 False"
  have e: "(case euler_steps (call2 (net ?m)) 2 (rev (entries (linspace 0 1 2)))
              (fst (randn [1, channels ?m, image_size ?m, image_size ?m] example_rng)) of
         Inl e \<Rightarrow> Inl e
       | Inr z \<Rightarrow> Inr (unnormalize_to_0_1 (clip (- 1) 1 z)))
       = Inr \<lparr>shape = [1, 1, 1, 1], entries = [1 / 4]\<rparr>"
    by (simp add: RectifiedFlow_init_def clock_net_def example_rng_def tensor_eval)
  have d: "descending_times 2 = [1, 0]"
    by (simp add: descending_times_def numeral_2_eq_2)
  show ?thesis
    using sample_euler_integration[of False ?m 1 2 example_rng] e d by simp
qed

text \<open>
  C2 as stated fails for one step: the time points of \<^verbatim>\<open>sample\<close> are then the
  single value zero, which is no sequence from one down to zero. On a network that
  returns the time it is queried at, one step from the noise \<open>0\<close> leaves \<open>0\<close>, the
  image \<open>1/2\<close>; a query at time one would give \<open>-1\<close>, the image \<open>0\<close>.
\<close>
theorem sample_single_step_counterexample:
  "reversed (linspace 0 1 1) = [scalar_tensor 0] \<and>
   \<not> from_1_down_to_0 (rev (entries (linspace 0 1 1))) \<and>
   fst (sample (RectifiedFlow_init clock_net 1 1 False) 1 1 False example_rng)
     = Inr (\<lparr>shape = [1, 1, 1, 1], entries = [1 / 2]\<rparr>, None)"
  by (simp add: reversed_def linspace_def from_1_down_to_0_def sample_def randn_def
      RectifiedFlow_init_def clock_net_def example_rng_def scalar_tensor_def tdiv_int_def
      tmap_def tsub_def tbinop_def pad_shape_def chunks_def unnormalize_to_0_1_def clip_def)

subsection \<open>Errors of the operations\<close>

lemma tdiv_int_cases: "tdiv_int v n = Inl e \<Longrightarrow> e = DivisionByZero \<and> n = 0"
  by (simp add: tdiv_int_def split: if_splits)

lemma tbinop_error: "tbinop f a b = Inl e \<Longrightarrow> e = RuntimeError"
  by (simp add: tbinop_def Let_def split: option.splits)

lemma stack_error: "stack ims = Inl e \<Longrightarrow> e = RuntimeError"
  by (simp add: stack_def split: list.splits if_splits)

lemma mse_loss_error: "mse_loss a b = Inl e \<Longrightarrow> e = RuntimeError \<or> e = DivisionByZero"
  by (auto simp: mse_loss_def bindE_def tsub_def split: sum.splits if_splits dest: tbinop_error)

lemma euler_loop_error:
  assumes "\<And>z t e. q z t = Inl e \<Longrightarrow> e \<in> E"
    and "euler_loop q n ts z im = Inl e"
  shows "e \<in> E \<or> e = RuntimeError \<or> (e = DivisionByZero \<and> n = 0 \<and> ts \<noteq> [])"
  using assms(2)
proof (induction ts arbitrary: z im)
  case Nil
  then show ?case by simp
next
  case (Cons t ts)
  then show ?case
    by (auto simp: tsub_def split: sum.splits dest: assms(1) tdiv_int_cases tbinop_error)
qed

lemma finish_error:
  "finish dec ras r = Inl e \<Longrightarrow> r = Inl e \<or> e = RuntimeError"
  by (auto simp: finish_def Let_def split: sum.splits if_splits dest: stack_error)

lemma guided_query_error: "guided_query nt y cfg z t = Inl e \<Longrightarrow> e = TypeError"
  by (simp add: guided_query_def split: list.splits)

lemma sampler_error:
  assumes q: "\<And>z t e. q z t = Inl e \<Longrightarrow> e = TypeError"
    and "finish dec ras (euler_loop q n (reversed (linspace 0 1 n)) z [z]) = Inl e"
  shows "e = TypeError \<or> e = RuntimeError"
proof -
  let ?loop = "euler_loop q n (reversed (linspace 0 1 n)) z [z]"
  have "?loop = Inl e \<or> e = RuntimeError" using assms(2) by (rule finish_error)
  moreover have "e \<in> {TypeError} \<or> e = RuntimeError \<or>
      (e = DivisionByZero \<and> n = 0 \<and> reversed (linspace 0 1 n) \<noteq> [])" if "?loop = Inl e"
    by (rule euler_loop_error[OF _ that]) (simp add: q)
  ultimately show ?thesis using reversed_linspace_zero by auto
qed

lemma sample_error:
  assumes "fst (sample self B n ras g) = Inl e"
  shows "e = RuntimeError"
proof -
  let ?z = "fst (randn [B, channels self, image_size self, image_size self] g)"
  let ?loop = "euler_loop (\<lambda>z t. Inr (call2 (net self) z t)) n (reversed (linspace 0 1 n)) ?z [?z]"
  have f: "finish (\<lambda>z. z) ras ?loop = Inl e"
    using assms by (simp add: sample_finish split_beta sample_loop_euler)
  then have "?loop = Inl e \<or> e = RuntimeError" by (rule finish_error)
  moreover have "e \<in> {} \<or> e = RuntimeError \<or>
      (e = DivisionByZero \<and> n = 0 \<and> reversed (linspace 0 1 n) \<noteq> [])" if "?loop = Inl e"
    by (rule euler_loop_error[OF _ that]) simp
  ultimately show ?thesis using reversed_linspace_zero by auto
qed

lemma cond_sample_error:
  assumes "fst (cond_sample self cl n cfg ras g) = Inl e"
  shows "(e = AssertionError \<and> \<not> use_cond self) \<or>
         (use_cond self \<and> (e = TypeError \<or> e = RuntimeError))"
proof (cases "use_cond self")
  case False
  then show ?thesis using assms by (simp add: cond_sample_def)
next
  case True
  let ?z = "fst (randn [length cl, channels self, image_size self, image_size self] g)"
  have "finish (\<lambda>z. z) ras
          (euler_loop (guided_query (net self) cl cfg) n (reversed (linspace 0 1 n)) ?z [?z]) = Inl e"
    using assms True by (simp add: cond_sample_finish split_beta cond_sample_loop_euler)
  then have "e = TypeError \<or> e = RuntimeError"
    by (rule sampler_error[rotated]) (rule guided_query_error)
  then show ?thesis using True by simp
qed

lemma bindE_error: "bindE r f = Inl e \<Longrightarrow> r = Inl e \<or> (\<exists>v. r = Inr v \<and> f v = Inl e)"
  by (cases r) (simp_all add: bindE_def)

lemma loss_body_error:
  assumes "bindE (tmul a x) (\<lambda>l.
           bindE (tmul b z) (\<lambda>r.
           bindE (tadd l r) (\<lambda>z_t.
           let v_t = F z_t in
           bindE (tsub z x) (\<lambda>target.
           mse_loss target v_t)))) = Inl e"
  shows "e = RuntimeError \<or> e = DivisionByZero"
proof -
  from bindE_error[OF assms] consider "tmul a x = Inl e"
    | l where "bindE (tmul b z) (\<lambda>r. bindE (tadd l r) (\<lambda>z_t.
                 let v_t = F z_t in bindE (tsub z x) (\<lambda>target. mse_loss target v_t))) = Inl e"
    by blast
  then show ?thesis
  proof cases
    case 1
    then show ?thesis unfolding tmul_def by (auto dest: tbinop_error)
  next
    case (2 l)
    from bindE_error[OF this] consider "tmul b z = Inl e"
      | r where "bindE (tadd l r) (\<lambda>z_t.
                   let v_t = F z_t in bindE (tsub z x) (\<lambda>target. mse_loss target v_t)) = Inl e"
      by blast
    then show ?thesis
    proof cases
      case 1
      then show ?thesis unfolding tmul_def by (auto dest: tbinop_error)
    next
      case (2 r)
      from bindE_error[OF this] consider "tadd l r = Inl e"
        | z_t where "bindE (tsub z x) (\<lambda>target. mse_loss target (F z_t)) = Inl e"
        unfolding Let_def by blast
      then show ?thesis
      proof cases
        case 1
        then show ?thesis unfolding tadd_def by (auto dest: tbinop_error)
      next
        case (2 z_t)
        from bindE_error[OF this] consider "tsub z x = Inl e"
          | target where "mse_loss target (F z_t) = Inl e"
          by blast
        then show ?thesis
        proof cases
          case 1
          then show ?thesis unfolding tsub_def by (auto dest: tbinop_error)
        next
          case (2 target)
          then show ?thesis by (rule mse_loss_error)
        qed
      qed
    qed
  qed
qed

lemma forward_error:
  assumes "fst (forward self x c g) = Inl e"
  shows "(e = AssertionError \<and> use_cond self \<and> c = None) \<or>
         (\<not> (use_cond self \<and> c = None) \<and> e \<in> {IndexError, RuntimeError, DivisionByZero})"
proof (cases "use_cond self \<and> c = None")
  case True
  then show ?thesis using assms by (simp add: forward_def)
next
  case False
  have "e \<in> {IndexError, RuntimeError, DivisionByZero}"
  proof (cases "shape x")
    case Nil
    then show ?thesis
      using assms unfolding forward_def if_not_P[OF False] by simp
  next
    case (Cons b bs)
    show ?thesis
      using assms unfolding forward_def if_not_P[OF False] Cons list.case
      by (auto simp: split_beta simp del: Let_def dest!: loss_body_error[unfolded Let_def] simp: Let_def)
  qed
  then show ?thesis using False by simp
qed

lemma latent_forward_error:
  assumes "fst (latent_forward self x c g) = Inl e"
  shows "(e = AssertionError \<and> use_cond self \<and> c = None) \<or>
         (\<not> (use_cond self \<and> c = None) \<and> e \<in> {IndexError, RuntimeError, DivisionByZero})"
proof (cases "use_cond self \<and> c = None")
  case True
  then show ?thesis using assms by (simp add: latent_forward_def)
next
  case False
  have "e \<in> {IndexError, RuntimeError, DivisionByZero}"
  proof (cases "shape x")
    case Nil
    then show ?thesis
      using assms unfolding latent_forward_def if_not_P[OF False] by simp
  next
    case (Cons b bs)
    show ?thesis
      using assms unfolding latent_forward_def if_not_P[OF False] Cons list.case
      by (auto simp: split_beta simp del: Let_def dest!: loss_body_error[unfolded Let_def] simp: Let_def)
  qed
  then show ?thesis using False by simp
qed

lemma latent_cond_sample_error:
  assumes "fst (latent_cond_sample self cl n cfg ras g) = Inl e"
  shows "(e = AssertionError \<and> \<not> use_cond self) \<or>
         (use_cond self \<and> (e = TypeError \<or> e = RuntimeError))"
proof (cases "use_cond self")
  case False
  then show ?thesis using assms by (simp add: latent_cond_sample_def)
next
  case True
  let ?z = "fst (randn [length cl, channels self, image_size self, image_size self] g)"
  have "finish (decode self) ras
          (euler_loop (guided_query (net self) cl cfg) n (reversed (linspace 0 1 n)) ?z [?z]) = Inl e"
    using assms True by (simp add: latent_cond_sample_finish split_beta cond_sample_loop_euler)
  then have "e = TypeError \<or> e = RuntimeError"
    by (rule sampler_error[rotated]) (rule guided_query_error)
  then show ?thesis using True by simp
qed

lemma forward_assert: "use_cond self \<and> c = None \<Longrightarrow> forward self x c g = (Inl AssertionError, g)"
  by (simp add: forward_def)

lemma latent_forward_assert:
  "use_cond self \<and> c = None \<Longrightarrow> latent_forward self x c g = (Inl AssertionError, g)"
  by (simp add: latent_forward_def)

lemma cond_sample_assert:
  "\<not> use_cond self \<Longrightarrow> cond_sample self cl n cfg ras g = (Inl AssertionError, g)"
  by (simp add: cond_sample_def)

lemma latent_cond_sample_assert:
  "\<not> use_cond self \<Longrightarrow> latent_cond_sample self cl n cfg ras g = (Inl AssertionError, g)"
  by (simp add: latent_cond_sample_def)

text \<open>
  C3. The loss fails with the assertion error exactly when the network is
  conditional (its \<^verbatim>\<open>num_classes\<close> is set) and no labels are given, and
  \<^verbatim>\<open>cond_sample\<close> fails with it exactly when the network is not conditional; the
  same holds for the latent model. Every other failure of these operations is an
  error of the tensor library, never the assertion.
\<close>
theorem configuration_errors:
  "(fst (forward (RectifiedFlow_init nt ch sz lg) x c g) = Inl AssertionError
      \<longleftrightarrow> num_classes nt \<noteq> None \<and> c = None) \<and>
   (fst (cond_sample (RectifiedFlow_init nt ch sz lg) cl n cfg ras g) = Inl AssertionError
      \<longleftrightarrow> num_classes nt = None) \<and>
   (fst (latent_forward (LatentRectifiedFlow_init nt ch sz lg v) x c g) = Inl AssertionError
      \<longleftrightarrow> num_classes nt \<noteq> None \<and> c = None) \<and>
   (fst (latent_cond_sample (LatentRectifiedFlow_init nt ch sz lg v) cl n cfg ras g) = Inl AssertionError
      \<longleftrightarrow> num_classes nt = None)"
proof -
  define m where "m = RectifiedFlow_init nt ch sz lg"
  define l where "l = LatentRectifiedFlow_init nt ch sz lg v"
  have u: "use_cond m = (num_classes nt \<noteq> None)"
    by (simp add: m_def RectifiedFlow_init_def)
  have ul: "use_cond l = (num_classes nt \<noteq> None)"
    by (simp add: l_def LatentRectifiedFlow_init_def RectifiedFlow_init_def RectifiedFlow.extend_def)
  have 1: "fst (forward m x c g) = Inl AssertionError \<longleftrightarrow> use_cond m \<and> c = None"
    using forward_error[of m x c g AssertionError] forward_assert[of m c x g] by fastforce
  have 2: "fst (cond_sample m cl n cfg ras g) = Inl AssertionError \<longleftrightarrow> \<not> use_cond m"
    using cond_sample_error[of m cl n cfg ras g AssertionError] cond_sample_assert[of m cl n cfg ras g]
    by fastforce
  have 3: "fst (latent_forward l x c g) = Inl AssertionError \<longleftrightarrow> use_cond l \<and> c = None"
    using latent_forward_error[of l x c g AssertionError] latent_forward_assert[of l c x g]
    by fastforce
  have 4: "fst (latent_cond_sample l cl n cfg ras g) = Inl AssertionError \<longleftrightarrow> \<not> use_cond l"
    using latent_cond_sample_error[of l cl n cfg ras g AssertionError]
      latent_cond_sample_assert[of l cl n cfg ras g]
    by fastforce
  show ?thesis
    using 1 2 3 4 unfolding u ul unfolding m_def l_def by simp
qed

subsection \<open>Zero steps\<close>

lemma stack_single: "stack [a] = Inr \<lparr>shape = 1 # shape a, entries = entries a\<rparr>"
  by (simp add: stack_def)

text \<open>
  C10. With zero steps \<^verbatim>\<open>sample\<close> returns without an error the initial noise,
  clipped to \<open>[-1, 1]\<close> and mapped to \<open>[0, 1]\<close>, and with \<^verbatim>\<open>return_all_steps\<close> a
  trajectory of length one that holds the same image. The result does not depend on
  the network: the loop body, with its query and its division, does not run.
\<close>
theorem sample_zero_steps:
  "sample self B 0 ras g =
     (let z0 = fst (randn [B, channels self, image_size self, image_size self] g);
          image = unnormalize_to_0_1 (clip (- 1) 1 z0)
      in (Inr (image,
               if ras then Some \<lparr>shape = 1 # shape image, entries = entries image\<rparr> else None),
          snd (randn [B, channels self, image_size self, image_size self] g))) \<and>
   sample (self\<lparr>net := nt\<rparr>) B 0 ras g = sample self B 0 ras g"
  by (simp add: sample_def Let_def split_beta reversed_linspace_zero stack_single
      unnormalize_to_0_1_def clip_def tmap_def)

lemma sample_zero_value:
  "sample self B 0 ras g =
     (let z0 = fst (randn [B, channels self, image_size self, image_size self] g);
          image = unnormalize_to_0_1 (clip (- 1) 1 z0)
      in (Inr (image,
               if ras then Some \<lparr>shape = 1 # shape image, entries = entries image\<rparr> else None),
          snd (randn [B, channels self, image_size self, image_size self] g)))"
  by (simp add: sample_def Let_def split_beta reversed_linspace_zero stack_single
      unnormalize_to_0_1_def clip_def tmap_def)

lemma cond_sample_zero_value:
  "use_cond self \<Longrightarrow> cond_sample self cl 0 cfg ras g =
     (let z0 = fst (randn [length cl, channels self, image_size self, image_size self] g);
          image = unnormalize_to_0_1 (clip (- 1) 1 z0)
      in (Inr (image,
               if ras then Some \<lparr>shape = 1 # shape image, entries = entries image\<rparr> else None),
          snd (randn [length cl, channels self, image_size self, image_size self] g)))"
  by (simp add: cond_sample_def Let_def split_beta reversed_linspace_zero stack_single
      unnormalize_to_0_1_def clip_def tmap_def)

text \<open>
  C4, as amended. No step count makes \<^verbatim>\<open>sample\<close> or \<^verbatim>\<open>cond_sample\<close> divide by
  zero: the division \<open>v_t / sampling_steps\<close> stands in the loop body, and for zero
  steps the loop has no time point to run on. Zero steps are not rejected either:
  \<^verbatim>\<open>sample\<close>, and \<^verbatim>\<open>cond_sample\<close> on a conditional model, return the initial noise
  clipped to \<open>[-1, 1]\<close> and mapped to \<open>[0, 1]\<close>, with a trajectory that holds this one
  image when \<^verbatim>\<open>return_all_steps\<close> is set.
\<close>
theorem zero_steps_no_division:
  "fst (sample self B n ras g) \<noteq> Inl DivisionByZero \<and>
   fst (cond_sample self cl n cfg ras g) \<noteq> Inl DivisionByZero \<and>
   sample self B 0 ras g =
     (let z0 = fst (randn [B, channels self, image_size self, image_size self] g);
          image = unnormalize_to_0_1 (clip (- 1) 1 z0)
      in (Inr (image,
               if ras then Some \<lparr>shape = 1 # shape image, entries = entries image\<rparr> else None),
          snd (randn [B, channels self, image_size self, image_size self] g))) \<and>
   (use_cond self \<longrightarrow>
      cond_sample self cl 0 cfg ras g =
        (let z0 = fst (randn [length cl, channels self, image_size self, image_size self] g);
             image = unnormalize_to_0_1 (clip (- 1) 1 z0)
         in (Inr (image,
                  if ras then Some \<lparr>shape = 1 # shape image, entries = entries image\<rparr>
                  else None),
             snd (randn [length cl, channels self, image_size self, image_size self] g))))"
proof (intro conjI impI)
  show "fst (sample self B n ras g) \<noteq> Inl DivisionByZero"
    using sample_error[of self B n ras g DivisionByZero] by auto
  show "fst (cond_sample self cl n cfg ras g) \<noteq> Inl DivisionByZero"
    using cond_sample_error[of self cl n cfg ras g DivisionByZero] by auto
  show "sample self B 0 ras g =
     (let z0 = fst (randn [B, channels self, image_size self, image_size self] g);
          image = unnormalize_to_0_1 (clip (- 1) 1 z0)
      in (Inr (image,
               if ras then Some \<lparr>shape = 1 # shape image, entries = entries image\<rparr> else None),
          snd (randn [B, channels self, image_size self, image_size self] g)))"
    by (rule sample_zero_value)
  assume "use_cond self"
  then show "cond_sample self cl 0 cfg ras g =
        (let z0 = fst (randn [length cl, channels self, image_size self, image_size self] g);
             image = unnormalize_to_0_1 (clip (- 1) 1 z0)
         in (Inr (image,
                  if ras then Some \<lparr>shape = 1 # shape image, entries = entries image\<rparr>
                  else None),
             snd (randn [length cl, channels self, image_size self, image_size self] g)))"
    by (rule cond_sample_zero_value)
qed

text \<open>
  Zero steps for the labels \<open>3, 4\<close>: the noise is \<open>(0, 1/2)\<close> and the images are
  \<open>(1/2, 3/4)\<close>.
\<close>
theorem zero_steps_no_division_witness:
  "fst (sample (RectifiedFlow_init labelled_net 1 1 False) 2 0 True example_rng) \<noteq> Inl DivisionByZero \<and>
   fst (cond_sample (RectifiedFlow_init labelled_net 1 1 False) [3, 4] 0 5 True example_rng)
     \<noteq> Inl DivisionByZero \<and>
   fst (cond_sample (RectifiedFlow_init labelled_net 1 1 False) [3, 4] 0 5 True example_rng)
     = Inr (\<lparr>shape = [2, 1, 1, 1], entries = [1 / 2, 3 / 4]\<rparr>,
            Some \<lparr>shape = [1, 2, 1, 1, 1], entries = [1 / 2, 3 / 4]\<rparr>)"
proof -
  let ?m = "RectifiedFlow_init labelled_net 1 1 False"
  have u: "use_cond ?m"
    by (simp add: RectifiedFlow_init_def labelled_net_def)
  note t = zero_steps_no_division[of ?m 2 0 True example_rng "[3, 4]" 5]
  have "fst (cond_sample ?m [3, 4] 0 5 True example_rng)
     = Inr (\<lparr>shape = [2, 1, 1, 1], entries = [1 / 2, 3 / 4]\<rparr>,
            Some \<lparr>shape = [1, 2, 1, 1, 1], entries = [1 / 2, 3 / 4]\<rparr>)"
    unfolding t[THEN conjunct2, THEN conjunct2, THEN conjunct2, THEN mp, OF u]
    by (simp add: RectifiedFlow_init_def labelled_net_def identity_net_def example_rng_def
        randn_def unnormalize_to_0_1_def clip_def tmap_def Let_def numeral_2_eq_2)
  then show ?thesis
    using t[THEN conjunct1] t[THEN conjunct2, THEN conjunct1] by simp
qed

text \<open>
  C4 as stated fails: with zero steps \<^verbatim>\<open>sample\<close> and \<^verbatim>\<open>cond_sample\<close> return the
  clipped and remapped noise, here \<open>0\<close> mapped to \<open>1/2\<close>, and no division by zero
  takes place.
\<close>
theorem zero_steps_counterexample:
  "fst (sample (RectifiedFlow_init identity_net 1 1 False) 1 0 False example_rng)
     = Inr (\<lparr>shape = [1, 1, 1, 1], entries = [1 / 2]\<rparr>, None) \<and>
   fst (sample (RectifiedFlow_init identity_net 1 1 False) 1 0 False example_rng)
     \<noteq> Inl DivisionByZero \<and>
   fst (cond_sample (RectifiedFlow_init labelled_net 1 1 False) [3] 0 5 False example_rng)
     = Inr (\<lparr>shape = [1, 1, 1, 1], entries = [1 / 2]\<rparr>, None)"
  by (simp add: sample_def cond_sample_def reversed_def linspace_def randn_def
      RectifiedFlow_init_def identity_net_def labelled_net_def example_rng_def
      unnormalize_to_0_1_def clip_def tmap_def)

subsection \<open>The latent model\<close>

















text \<open>
  C9. The samplers of the latent model run the loops of the pixel model on noise of
  the same shape \<open>(batch, channels, image_size, image_size)\<close>, and differ from them in
  the decoder only: each sampler is the same function of a decoder, applied to the
  final state and to every state of the trajectory before the clip and the remap,
  with \<^verbatim>\<open>decode\<close> in the latent model and nothing in the pixel model.
\<close>
theorem latent_samplers_decode_only:
  "sample self B n ras g = sample_with (\<lambda>z. z) self B n ras g \<and>
   latent_sample lself B n ras g = sample_with (decode lself) lself B n ras g \<and>
   cond_sample self cl n cfg ras g = cond_sample_with (\<lambda>z. z) self cl n cfg ras g \<and>
   latent_cond_sample lself cl n cfg ras g = cond_sample_with (decode lself) lself cl n cfg ras g \<and>
   latent_sample_loop nt n ts z ims = sample_loop nt n ts z ims \<and>
   latent_cond_sample_loop nt cl cfg n ts z ims = cond_sample_loop nt cl cfg n ts z ims"
  unfolding sample_with_def cond_sample_with_def
  using sample_finish[of self B n ras g] latent_sample_finish[of lself B n ras g]
    cond_sample_finish[of self cl n cfg ras g] latent_cond_sample_finish[of lself cl n cfg ras g]
    latent_sample_loop_eq[of nt n ts z ims] latent_cond_sample_loop_eq[of nt cl cfg n ts z ims]
  by simp

subsection \<open>Guidance at scale one\<close>

lemma guided_unguided:
  assumes "\<And>z t. forward_with_cfg nt z t y 1 = call3 nt z t (Some y)"
  shows "guided_query nt y 1 = unguided_query nt y"
  by (intro ext) (simp add: guided_query_def unguided_query_def assms split: list.splits)

text \<open>
  C7. For a conditional model whose guided variant at scale one is the plain
  conditional prediction, \<^verbatim>\<open>cond_sample\<close> with \<open>cfg_scale = 1\<close> returns, from the same
  generator and hence the same noise, exactly the result of the conditional Euler
  integration without guidance.
\<close>
theorem cfg_scale_one_is_unguided:
  assumes "use_cond self"
    and "\<And>z t. forward_with_cfg (net self) z t classes 1 = call3 (net self) z t (Some classes)"
  shows "cond_sample self classes n 1 ras g = unguided_cond_sample self classes n ras g"
  using assms(1)
  by (simp add: cond_sample_finish unguided_cond_sample_def cond_sample_loop_euler
      guided_unguided[OF assms(2)])

theorem cfg_scale_one_is_unguided_witness:
  "cond_sample (RectifiedFlow_init guided_net 1 1 False) [3, 4] 2 1 False example_rng
   = unguided_cond_sample (RectifiedFlow_init guided_net 1 1 False) [3, 4] 2 False example_rng \<and>
   fst (unguided_cond_sample (RectifiedFlow_init guided_net 1 1 False) [3, 4] 2 False example_rng)
   = Inr (\<lparr>shape = [2, 1, 1, 1], entries = [1 / 2, 9 / 16]\<rparr>, None)"
proof -
  let ?m = "RectifiedFlow_init guided_net 1 1 False"
  have u: "use_cond ?m" by (simp add: RectifiedFlow_init_def guided_net_def)
  have i: "tmap ((*) 1) z = z" for z
    by (rule tmap_id) simp
  have "forward_with_cfg (net ?m) z t [3, 4] 1 = call3 (net ?m) z t (Some [3, 4])" for z t
    by (simp add: RectifiedFlow_init_def guided_net_def i)
  from cfg_scale_one_is_unguided[OF u this]
  have a: "cond_sample ?m [3, 4] 2 1 False example_rng
           = unguided_cond_sample ?m [3, 4] 2 False example_rng" .
  have b: "fst (unguided_cond_sample ?m [3, 4] 2 False example_rng)
           = Inr (\<lparr>shape = [2, 1, 1, 1], entries = [1 / 2, 9 / 16]\<rparr>, None)"
    by (simp add: unguided_cond_sample_def unguided_query_def finish_def RectifiedFlow_init_def
        guided_net_def example_rng_def tensor_eval)
  show ?thesis using a b by simp
qed

subsection \<open>Trajectories\<close>

lemma tsub_same_form:
  assumes "wf_tensor z" "shape d = shape z" "wf_tensor d"
  shows "\<exists>z'. tsub z d = Inr z' \<and> shape z' = shape z \<and> wf_tensor z'"
proof -
  have "tsub z d = Inr \<lparr>shape = shape z, entries = map2 (-) (entries z) (entries d)\<rparr>"
    unfolding tsub_def using assms by (intro tbinop_same) simp_all
  moreover have "wf_tensor \<lparr>shape = shape z, entries = map2 (-) (entries z) (entries d)\<rparr>"
    using assms by (simp add: wf_tensor_def numel_def)
  ultimately show ?thesis by simp
qed

lemma euler_loop_total:
  assumes q: "\<And>z t. shape z = s \<Longrightarrow> wf_tensor z \<Longrightarrow> \<exists>v. q z t = Inr v \<and> shape v = s \<and> wf_tensor v"
    and "shape z = s" "wf_tensor z" "ts = [] \<or> n \<noteq> 0"
  shows "\<exists>zf new. euler_loop q n ts z [] = Inr (zf, new) \<and> length new = length ts \<and>
           last (z # new) = zf \<and> (\<forall>a \<in> set new. shape a = s \<and> wf_tensor a)"
  using assms(2-)
proof (induction ts arbitrary: z)
  case Nil
  then show ?case by simp
next
  case (Cons t ts)
  then have n: "n \<noteq> 0" by simp
  obtain v where v: "q z t = Inr v" "shape v = s" "wf_tensor v"
    using q[OF Cons.prems(1,2)] by blast
  have d: "tdiv_int v n = Inr (tmap (\<lambda>a. a / real n) v)"
    using n by (simp add: tdiv_int_def)
  have "shape (tmap (\<lambda>a. a / real n) v) = shape z" "wf_tensor (tmap (\<lambda>a. a / real n) v)"
    using v Cons.prems(1) by (simp_all add: tmap_def wf_tensor_def numel_def)
  then obtain z' where z': "tsub z (tmap (\<lambda>a. a / real n) v) = Inr z'" "shape z' = shape z" "wf_tensor z'"
    using tsub_same_form[OF Cons.prems(2)] by blast
  have "shape z' = s" using z' Cons.prems by simp
  from Cons.IH[OF this z'(3)] n
  obtain zf new where r: "euler_loop q n ts z' [] = Inr (zf, new)" "length new = length ts"
      "last (z' # new) = zf" "\<forall>a \<in> set new. shape a = s \<and> wf_tensor a"
    by blast
  have "euler_loop q n (t # ts) z [] = Inr (zf, z' # new)"
    using euler_loop_images[of q n ts z' "[z']"] by (simp add: v d z' r)
  then show ?case using r z' \<open>shape z' = s\<close> by auto
qed

lemma stack_same:
  assumes "ims \<noteq> []" "\<forall>a \<in> set ims. shape a = s"
  shows "stack ims = Inr \<lparr>shape = length ims # s, entries = concat (map entries ims)\<rparr>"
  using assms by (cases ims) (auto simp: stack_def list_all_iff)

lemma take_drop_concat:
  "\<forall>xs \<in> set xss. length xs = k \<Longrightarrow> i < length xss \<Longrightarrow>
     take k (drop (i * k) (concat xss)) = xss ! i"
proof (induction xss arbitrary: i)
  case Nil
  then show ?case by simp
next
  case (Cons xs xss)
  then show ?case by (cases i) simp_all
qed

lemma select_stack:
  assumes "\<forall>a \<in> set ims. shape a = s \<and> wf_tensor a" "i < length ims"
  shows "select \<lparr>shape = length ims # s, entries = concat (map entries ims)\<rparr> i = ims ! i"
proof -
  have "\<forall>xs \<in> set (map entries ims). length xs = prod_list s"
    using assms(1) by (auto simp: wf_tensor_def numel_def)
  then have "take (prod_list s) (drop (i * prod_list s) (concat (map entries ims))) = map entries ims ! i"
    using assms(2) by (intro take_drop_concat) simp_all
  moreover have "shape (ims ! i) = s" using assms by simp
  ultimately show ?thesis using assms(2) by (simp add: select_def)
qed

lemma select_tmap: "select (tmap f a) i = tmap f (select a i)"
  by (simp add: select_def tmap_def take_map drop_map)

lemma finish_trajectory:
  assumes "length new = n" "last (z0 # new) = zf"
    and "\<forall>a \<in> set (z0 # new). shape (dec a) = s \<and> wf_tensor (dec a)"
  shows "\<exists>traj. finish dec True (Inr (zf, z0 # new))
            = Inr (unnormalize_to_0_1 (clip (- 1) 1 (dec zf)), Some traj) \<and>
          shape traj = (n + 1) # s \<and>
          (\<forall>k \<le> n. select traj k = unnormalize_to_0_1 (clip (- 1) 1 (dec ((z0 # new) ! k))))"
proof -
  let ?ims = "map dec (z0 # new)"
  let ?st = "\<lparr>shape = length ?ims # s, entries = concat (map entries ?ims)\<rparr>"
  let ?traj = "unnormalize_to_0_1 (clip (- 1) 1 ?st)"
  have all: "\<forall>a \<in> set ?ims. shape a = s \<and> wf_tensor a"
    using assms(3) by auto
  then have "stack ?ims = Inr ?st"
    by (intro stack_same) auto
  then have f: "finish dec True (Inr (zf, z0 # new))
            = Inr (unnormalize_to_0_1 (clip (- 1) 1 (dec zf)), Some ?traj)"
    by (simp add: finish_def)
  have l: "length ?ims = n + 1" using assms(1) by simp
  have sel: "select ?traj k = unnormalize_to_0_1 (clip (- 1) 1 (dec ((z0 # new) ! k)))"
    if "k \<le> n" for k
  proof -
    have k: "k < length ?ims" using that l by simp
    then have "?ims ! k = dec ((z0 # new) ! k)"
      by (simp only: nth_map length_map)
    then show ?thesis
      using select_stack[OF all k]
      by (simp only: unnormalize_to_0_1_def clip_def select_tmap)
  qed
  have "shape ?traj = (n + 1) # s"
    using l by (simp add: unnormalize_to_0_1_def clip_def tmap_def)
  then show ?thesis
    using f sel by (intro exI[of _ ?traj]) simp
qed

lemma sampler_trajectory:
  assumes q: "\<And>z t. shape z = s \<Longrightarrow> wf_tensor z \<Longrightarrow> \<exists>v. q z t = Inr v \<and> shape v = s \<and> wf_tensor v"
    and z0: "shape z0 = s" "wf_tensor z0" and n: "ts = [] \<or> n \<noteq> 0"
    and dec: "\<And>a. shape a = s \<Longrightarrow> wf_tensor a \<Longrightarrow> shape (dec a) = s' \<and> wf_tensor (dec a)"
  shows "\<exists>zf traj. finish dec True (euler_loop q n ts z0 [z0]) = Inr (zf, Some traj) \<and>
           shape traj = (length ts + 1) # s' \<and>
           select traj 0 = unnormalize_to_0_1 (clip (- 1) 1 (dec z0)) \<and>
           select traj (length ts) = zf \<and>
           (\<forall>k \<le> length ts. \<exists>zk ims. euler_loop q n (take k ts) z0 [z0] = Inr (zk, ims) \<and>
              select traj k = unnormalize_to_0_1 (clip (- 1) 1 (dec zk)))"
proof -
  obtain zf new where r: "euler_loop q n ts z0 [] = Inr (zf, new)" "length new = length ts"
      "last (z0 # new) = zf" "\<forall>a \<in> set new. shape a = s \<and> wf_tensor a"
    using euler_loop_total[of s q, OF q z0 n] by blast
  have e: "euler_loop q n ts z0 [z0] = Inr (zf, z0 # new)"
    using euler_loop_images[of q n ts z0 "[z0]"] by (simp add: r(1))
  have "\<forall>a \<in> set (z0 # new). shape (dec a) = s' \<and> wf_tensor (dec a)"
    using r(4) z0 dec by auto
  from finish_trajectory[OF r(2,3) this]
  obtain traj where t: "finish dec True (Inr (zf, z0 # new))
            = Inr (unnormalize_to_0_1 (clip (- 1) 1 (dec zf)), Some traj)"
      "shape traj = (length ts + 1) # s'"
      "\<forall>k \<le> length ts. select traj k = unnormalize_to_0_1 (clip (- 1) 1 (dec ((z0 # new) ! k)))"
    by blast
  have la: "(z0 # new) ! length ts = zf"
    using r(2,3) by (metis last_conv_nth length_Cons diff_Suc_1 list.distinct(1))
  have tk: "\<exists>zk ims. euler_loop q n (take k ts) z0 [z0] = Inr (zk, ims) \<and>
              select traj k = unnormalize_to_0_1 (clip (- 1) 1 (dec zk))" if "k \<le> length ts" for k
  proof -
    have "euler_loop q n (take k ts) z0 [] = Inr ((z0 # new) ! k, take k new)"
      using euler_loop_take[OF r(1) that] .
    then have "euler_loop q n (take k ts) z0 [z0] = Inr ((z0 # new) ! k, z0 # take k new)"
      using euler_loop_images[of q n "take k ts" z0 "[z0]"] by simp
    then show ?thesis using t(3) that by blast
  qed
  have "select traj 0 = unnormalize_to_0_1 (clip (- 1) 1 (dec z0))"
    using t(3) by simp
  moreover have "select traj (length ts) = unnormalize_to_0_1 (clip (- 1) 1 (dec zf))"
    using t(3) la by simp
  ultimately show ?thesis
    unfolding e using t(1,2) tk by auto
qed

lemma same_form_tmap: "same_form z (tmap f z)"
  by (simp add: same_form_def tmap_def)

lemma sample_trajectory:
  assumes "\<And>z t. same_form z (call2 (net self) z t)"
  shows "\<exists>zf traj. fst (sample self B n True g) = Inr (zf, Some traj) \<and>
           shape traj = (n + 1) # [B, channels self, image_size self, image_size self] \<and>
           select traj 0 = unnormalize_to_0_1 (clip (- 1) 1
              (fst (randn [B, channels self, image_size self, image_size self] g))) \<and>
           select traj n = zf \<and>
           (\<forall>k \<le> n. \<exists>zk ims.
              sample_loop (net self) n (take k (reversed (linspace 0 1 n)))
                (fst (randn [B, channels self, image_size self, image_size self] g))
                [fst (randn [B, channels self, image_size self, image_size self] g)]
              = Inr (zk, ims) \<and>
              select traj k = unnormalize_to_0_1 (clip (- 1) 1 zk))"
proof -
  let ?s = "[B, channels self, image_size self, image_size self]"
  have q: "\<exists>v. Inr (call2 (net self) z t) = Inr v \<and> shape v = ?s \<and> wf_tensor v"
    if "shape z = ?s" "wf_tensor z" for z t
    using assms[of z t] that by (simp add: same_form_def wf_tensor_def numel_def)
  have n: "reversed (linspace 0 1 n) = [] \<or> n \<noteq> 0"
    using length_reversed_linspace[of 0 1 n] by (cases n) auto
  show ?thesis
    using sampler_trajectory[of ?s "\<lambda>z t. Inr (call2 (net self) z t)" "fst (randn ?s g)"
        "reversed (linspace 0 1 n)" n "\<lambda>z. z" ?s, OF q randn_shape randn_wf n]
    by (simp add: sample_finish split_beta sample_loop_euler length_reversed_linspace)
qed

lemma cond_sample_trajectory:
  assumes "\<And>z t. same_form z (forward_with_cfg (net self) z t cl cfg)" and "use_cond self"
  shows "\<exists>zf traj. fst (cond_sample self cl n cfg True g) = Inr (zf, Some traj) \<and>
           shape traj = (n + 1) # [length cl, channels self, image_size self, image_size self] \<and>
           select traj 0 = unnormalize_to_0_1 (clip (- 1) 1
              (fst (randn [length cl, channels self, image_size self, image_size self] g))) \<and>
           select traj n = zf \<and>
           (\<forall>k \<le> n. \<exists>zk ims.
              cond_sample_loop (net self) cl cfg n (take k (reversed (linspace 0 1 n)))
                (fst (randn [length cl, channels self, image_size self, image_size self] g))
                [fst (randn [length cl, channels self, image_size self, image_size self] g)]
              = Inr (zk, ims) \<and>
              select traj k = unnormalize_to_0_1 (clip (- 1) 1 zk))"
proof -
  let ?s = "[length cl, channels self, image_size self, image_size self]"
  have q: "\<exists>v. guided_query (net self) cl cfg z t = Inr v \<and> shape v = ?s \<and> wf_tensor v"
    if "shape z = ?s" "wf_tensor z" for z t
    using assms(1)[of z "repeat t (length cl)"] that
    by (simp add: guided_query_def same_form_def wf_tensor_def numel_def)
  show ?thesis
    using sampler_trajectory[of ?s "guided_query (net self) cl cfg" "fst (randn ?s g)"
        "reversed (linspace 0 1 n)" n "\<lambda>z. z" ?s, OF q randn_shape randn_wf linspace_nonempty]
      assms(2)
    by (simp add: cond_sample_finish split_beta cond_sample_loop_euler length_reversed_linspace)
qed

lemma decode_form:
  assumes d1: "\<And>a. wf_tensor a \<Longrightarrow> wf_tensor (decode_sample (vae lself) a)"
    and d2: "\<And>a b. shape a = shape b \<Longrightarrow>
               shape (decode_sample (vae lself) a) = shape (decode_sample (vae lself) b)"
    and "shape a = shape z0" "wf_tensor a"
  shows "shape (decode lself a) = shape (decode lself z0) \<and> wf_tensor (decode lself a)"
proof -
  have "wf_tensor (tmap f a)" for f
    using assms(4) by (simp add: tmap_def wf_tensor_def numel_def)
  moreover have "shape (tmap f a) = shape (tmap f z0)" for f
    using assms(3) by (simp add: tmap_def)
  ultimately show ?thesis
    unfolding decode_def using d1 d2 by blast
qed

lemma latent_sample_trajectory:
  assumes "\<And>z t. same_form z (call2 (net lself) z t)"
    and d1: "\<And>a. wf_tensor a \<Longrightarrow> wf_tensor (decode_sample (vae lself) a)"
    and d2: "\<And>a b. shape a = shape b \<Longrightarrow>
               shape (decode_sample (vae lself) a) = shape (decode_sample (vae lself) b)"
  shows "\<exists>zf traj. fst (latent_sample lself B n True g) = Inr (zf, Some traj) \<and>
           shape traj = (n + 1) # shape (decode lself
              (fst (randn [B, channels lself, image_size lself, image_size lself] g))) \<and>
           select traj 0 = unnormalize_to_0_1 (clip (- 1) 1 (decode lself
              (fst (randn [B, channels lself, image_size lself, image_size lself] g)))) \<and>
           select traj n = zf \<and>
           (\<forall>k \<le> n. \<exists>zk ims.
              latent_sample_loop (net lself) n (take k (reversed (linspace 0 1 n)))
                (fst (randn [B, channels lself, image_size lself, image_size lself] g))
                [fst (randn [B, channels lself, image_size lself, image_size lself] g)]
              = Inr (zk, ims) \<and>
              select traj k = unnormalize_to_0_1 (clip (- 1) 1 (decode lself zk)))"
proof -
  let ?s = "[B, channels lself, image_size lself, image_size lself]"
  let ?z0 = "fst (randn ?s g)"
  have q: "\<exists>v. Inr (call2 (net lself) z t) = Inr v \<and> shape v = ?s \<and> wf_tensor v"
    if "shape z = ?s" "wf_tensor z" for z t
    using assms(1)[of z t] that by (simp add: same_form_def wf_tensor_def numel_def)
  have dec: "shape (decode lself a) = shape (decode lself ?z0) \<and> wf_tensor (decode lself a)"
    if "shape a = ?s" "wf_tensor a" for a
  proof (rule decode_form[OF d1 d2 _ that(2)])
    show "shape a = shape ?z0" unfolding randn_shape by (rule that(1))
  qed
  show ?thesis
    using sampler_trajectory[of ?s "\<lambda>z t. Inr (call2 (net lself) z t)" ?z0
        "reversed (linspace 0 1 n)" n "decode lself" "shape (decode lself ?z0)",
        OF q randn_shape randn_wf linspace_nonempty dec]
    by (simp add: latent_sample_finish split_beta latent_sample_loop_eq sample_loop_euler
        length_reversed_linspace)
qed

lemma latent_cond_sample_trajectory:
  assumes "\<And>z t. same_form z (forward_with_cfg (net lself) z t cl cfg)" and "use_cond lself"
    and d1: "\<And>a. wf_tensor a \<Longrightarrow> wf_tensor (decode_sample (vae lself) a)"
    and d2: "\<And>a b. shape a = shape b \<Longrightarrow>
               shape (decode_sample (vae lself) a) = shape (decode_sample (vae lself) b)"
  shows "\<exists>zf traj. fst (latent_cond_sample lself cl n cfg True g) = Inr (zf, Some traj) \<and>
           shape traj = (n + 1) # shape (decode lself
              (fst (randn [length cl, channels lself, image_size lself, image_size lself] g))) \<and>
           select traj 0 = unnormalize_to_0_1 (clip (- 1) 1 (decode lself
              (fst (randn [length cl, channels lself, image_size lself, image_size lself] g)))) \<and>
           select traj n = zf \<and>
           (\<forall>k \<le> n. \<exists>zk ims.
              latent_cond_sample_loop (net lself) cl cfg n (take k (reversed (linspace 0 1 n)))
                (fst (randn [length cl, channels lself, image_size lself, image_size lself] g))
                [fst (randn [length cl, channels lself, image_size lself, image_size lself] g)]
              = Inr (zk, ims) \<and>
              select traj k = unnormalize_to_0_1 (clip (- 1) 1 (decode lself zk)))"
proof -
  let ?s = "[length cl, channels lself, image_size lself, image_size lself]"
  let ?z0 = "fst (randn ?s g)"
  have q: "\<exists>v. guided_query (net lself) cl cfg z t = Inr v \<and> shape v = ?s \<and> wf_tensor v"
    if "shape z = ?s" "wf_tensor z" for z t
    using assms(1)[of z "repeat t (length cl)"] that
    by (simp add: guided_query_def same_form_def wf_tensor_def numel_def)
  have dec: "shape (decode lself a) = shape (decode lself ?z0) \<and> wf_tensor (decode lself a)"
    if "shape a = ?s" "wf_tensor a" for a
  proof (rule decode_form[OF d1 d2 _ that(2)])
    show "shape a = shape ?z0" unfolding randn_shape by (rule that(1))
  qed
  show ?thesis
    using sampler_trajectory[of ?s "guided_query (net lself) cl cfg" ?z0
        "reversed (linspace 0 1 n)" n "decode lself" "shape (decode lself ?z0)",
        OF q randn_shape randn_wf linspace_nonempty dec] assms(2)
    by (simp add: latent_cond_sample_finish split_beta latent_cond_sample_loop_eq
        cond_sample_loop_euler length_reversed_linspace)
qed

text \<open>
  C5. With \<^verbatim>\<open>return_all_steps\<close> the four samplers return, next to the images, a
  trajectory: a tensor whose first dimension is \<open>sampling_steps + 1\<close>, ordered by
  step. Its element \<open>k\<close> is the state after the first \<open>k\<close> steps of the loop, clipped
  and mapped to \<open>[0, 1]\<close> (decoded first in the latent model): the first element is
  the initial noise and the last one is the returned images. This holds for every
  step count, for a network whose velocity has the form of the state it is given
  (and, in the latent model, a decoder that returns well-formed tensors whose shape
  depends on the input shape only).
\<close>
theorem all_steps_trajectory:
  "((\<forall>z t. same_form z (call2 (net self) z t)) \<longrightarrow>
      (\<exists>zf traj. fst (sample self B n True g) = Inr (zf, Some traj) \<and>
         shape traj = (n + 1) # [B, channels self, image_size self, image_size self] \<and>
         select traj 0 = unnormalize_to_0_1 (clip (- 1) 1
            (fst (randn [B, channels self, image_size self, image_size self] g))) \<and>
         select traj n = zf \<and>
         (\<forall>k \<le> n. \<exists>zk ims.
            sample_loop (net self) n (take k (reversed (linspace 0 1 n)))
              (fst (randn [B, channels self, image_size self, image_size self] g))
              [fst (randn [B, channels self, image_size self, image_size self] g)]
            = Inr (zk, ims) \<and>
            select traj k = unnormalize_to_0_1 (clip (- 1) 1 zk)))) \<and>
  ((\<forall>z t. same_form z (forward_with_cfg (net self) z t cl cfg)) \<and> use_cond self \<longrightarrow>
      (\<exists>zf traj. fst (cond_sample self cl n cfg True g) = Inr (zf, Some traj) \<and>
         shape traj = (n + 1) # [length cl, channels self, image_size self, image_size self] \<and>
         select traj 0 = unnormalize_to_0_1 (clip (- 1) 1
            (fst (randn [length cl, channels self, image_size self, image_size self] g))) \<and>
         select traj n = zf \<and>
         (\<forall>k \<le> n. \<exists>zk ims.
            cond_sample_loop (net self) cl cfg n (take k (reversed (linspace 0 1 n)))
              (fst (randn [length cl, channels self, image_size self, image_size self] g))
              [fst (randn [length cl, channels self, image_size self, image_size self] g)]
            = Inr (zk, ims) \<and>
            select traj k = unnormalize_to_0_1 (clip (- 1) 1 zk)))) \<and>
  ((\<forall>z t. same_form z (call2 (net lself) z t)) \<and>
    (\<forall>a. wf_tensor a \<longrightarrow> wf_tensor (decode_sample (vae lself) a)) \<and>
    (\<forall>a b. shape a = shape b \<longrightarrow>
       shape (decode_sample (vae lself) a) = shape (decode_sample (vae lself) b)) \<longrightarrow>
      (\<exists>zf traj. fst (latent_sample lself B n True g) = Inr (zf, Some traj) \<and>
         shape traj = (n + 1) # shape (decode lself
            (fst (randn [B, channels lself, image_size lself, image_size lself] g))) \<and>
         select traj 0 = unnormalize_to_0_1 (clip (- 1) 1 (decode lself
            (fst (randn [B, channels lself, image_size lself, image_size lself] g)))) \<and>
         select traj n = zf \<and>
         (\<forall>k \<le> n. \<exists>zk ims.
            latent_sample_loop (net lself) n (take k (reversed (linspace 0 1 n)))
              (fst (randn [B, channels lself, image_size lself, image_size lself] g))
              [fst (randn [B, channels lself, image_size lself, image_size lself] g)]
            = Inr (zk, ims) \<and>
            select traj k = unnormalize_to_0_1 (clip (- 1) 1 (decode lself zk))))) \<and>
  ((\<forall>z t. same_form z (forward_with_cfg (net lself) z t cl cfg)) \<and> use_cond lself \<and>
    (\<forall>a. wf_tensor a \<longrightarrow> wf_tensor (decode_sample (vae lself) a)) \<and>
    (\<forall>a b. shape a = shape b \<longrightarrow>
       shape (decode_sample (vae lself) a) = shape (decode_sample (vae lself) b)) \<longrightarrow>
      (\<exists>zf traj. fst (latent_cond_sample lself cl n cfg True g) = Inr (zf, Some traj) \<and>
         shape traj = (n + 1) # shape (decode lself
            (fst (randn [length cl, channels lself, image_size lself, image_size lself] g))) \<and>
         select traj 0 = unnormalize_to_0_1 (clip (- 1) 1 (decode lself
            (fst (randn [length cl, channels lself, image_size lself, image_size lself] g)))) \<and>
         select traj n = zf \<and>
         (\<forall>k \<le> n. \<exists>zk ims.
            latent_cond_sample_loop (net lself) cl cfg n (take k (reversed (linspace 0 1 n)))
              (fst (randn [length cl, channels lself, image_size lself, image_size lself] g))
              [fst (randn [length cl, channels lself, image_size lself, image_size lself] g)]
            = Inr (zk, ims) \<and>
            select traj k = unnormalize_to_0_1 (clip (- 1) 1 (decode lself zk)))))"
proof (intro conjI impI)
  assume "(\<forall>z t. same_form z (call2 (net self) z t))"
  then show "\<exists>zf traj. fst (sample self B n True g) = Inr (zf, Some traj) \<and>
         shape traj = (n + 1) # [B, channels self, image_size self, image_size self] \<and>
         select traj 0 = unnormalize_to_0_1 (clip (- 1) 1
            (fst (randn [B, channels self, image_size self, image_size self] g))) \<and>
         select traj n = zf \<and>
         (\<forall>k \<le> n. \<exists>zk ims.
            sample_loop (net self) n (take k (reversed (linspace 0 1 n)))
              (fst (randn [B, channels self, image_size self, image_size self] g))
              [fst (randn [B, channels self, image_size self, image_size self] g)]
            = Inr (zk, ims) \<and>
            select traj k = unnormalize_to_0_1 (clip (- 1) 1 zk))"
    by (intro sample_trajectory; blast)
next
  assume "(\<forall>z t. same_form z (forward_with_cfg (net self) z t cl cfg)) \<and> use_cond self"
  then show "\<exists>zf traj. fst (cond_sample self cl n cfg True g) = Inr (zf, Some traj) \<and>
         shape traj = (n + 1) # [length cl, channels self, image_size self, image_size self] \<and>
         select traj 0 = unnormalize_to_0_1 (clip (- 1) 1
            (fst (randn [length cl, channels self, image_size self, image_size self] g))) \<and>
         select traj n = zf \<and>
         (\<forall>k \<le> n. \<exists>zk ims.
            cond_sample_loop (net self) cl cfg n (take k (reversed (linspace 0 1 n)))
              (fst (randn [length cl, channels self, image_size self, image_size self] g))
              [fst (randn [length cl, channels self, image_size self, image_size self] g)]
            = Inr (zk, ims) \<and>
            select traj k = unnormalize_to_0_1 (clip (- 1) 1 zk))"
    by (intro cond_sample_trajectory; blast)
next
  assume "(\<forall>z t. same_form z (call2 (net lself) z t)) \<and>
    (\<forall>a. wf_tensor a \<longrightarrow> wf_tensor (decode_sample (vae lself) a)) \<and>
    (\<forall>a b. shape a = shape b \<longrightarrow>
       shape (decode_sample (vae lself) a) = shape (decode_sample (vae lself) b))"
  then show "\<exists>zf traj. fst (latent_sample lself B n True g) = Inr (zf, Some traj) \<and>
         shape traj = (n + 1) # shape (decode lself
            (fst (randn [B, channels lself, image_size lself, image_size lself] g))) \<and>
         select traj 0 = unnormalize_to_0_1 (clip (- 1) 1 (decode lself
            (fst (randn [B, channels lself, image_size lself, image_size lself] g)))) \<and>
         select traj n = zf \<and>
         (\<forall>k \<le> n. \<exists>zk ims.
            latent_sample_loop (net lself) n (take k (reversed (linspace 0 1 n)))
              (fst (randn [B, channels lself, image_size lself, image_size lself] g))
              [fst (randn [B, channels lself, image_size lself, image_size lself] g)]
            = Inr (zk, ims) \<and>
            select traj k = unnormalize_to_0_1 (clip (- 1) 1 (decode lself zk)))"
    by (intro latent_sample_trajectory; blast)
next
  assume "(\<forall>z t. same_form z (forward_with_cfg (net lself) z t cl cfg)) \<and> use_cond lself \<and>
    (\<forall>a. wf_tensor a \<longrightarrow> wf_tensor (decode_sample (vae lself) a)) \<and>
    (\<forall>a b. shape a = shape b \<longrightarrow>
       shape (decode_sample (vae lself) a) = shape (decode_sample (vae lself) b))"
  then show "\<exists>zf traj. fst (latent_cond_sample lself cl n cfg True g) = Inr (zf, Some traj) \<and>
         shape traj = (n + 1) # shape (decode lself
            (fst (randn [length cl, channels lself, image_size lself, image_size lself] g))) \<and>
         select traj 0 = unnormalize_to_0_1 (clip (- 1) 1 (decode lself
            (fst (randn [length cl, channels lself, image_size lself, image_size lself] g)))) \<and>
         select traj n = zf \<and>
         (\<forall>k \<le> n. \<exists>zk ims.
            latent_cond_sample_loop (net lself) cl cfg n (take k (reversed (linspace 0 1 n)))
              (fst (randn [length cl, channels lself, image_size lself, image_size lself] g))
              [fst (randn [length cl, channels lself, image_size lself, image_size lself] g)]
            = Inr (zk, ims) \<and>
            select traj k = unnormalize_to_0_1 (clip (- 1) 1 (decode lself zk)))"
    by (intro latent_cond_sample_trajectory; blast)
qed

text \<open>
  Two steps from the noise \<open>(0, 1/2)\<close> with guidance at scale \<open>1/2\<close>: the states are
  \<open>(0, 1/2)\<close>, \<open>(0, 3/8)\<close> and \<open>(0, 9/32)\<close>, and the trajectory holds their images in
  this order.
\<close>
theorem all_steps_trajectory_witness:
  "(\<exists>zf traj. fst (sample (RectifiedFlow_init guided_net 1 1 False) 2 2 True example_rng)
       = Inr (zf, Some traj) \<and> shape traj = [3, 2, 1, 1, 1] \<and> select traj 2 = zf) \<and>
   (\<exists>zf traj. fst (cond_sample (RectifiedFlow_init guided_net 1 1 False) [3, 4] 2 (1 / 2) True
                      example_rng)
       = Inr (zf, Some traj) \<and> shape traj = [3, 2, 1, 1, 1] \<and> select traj 2 = zf) \<and>
   (\<exists>zf traj. fst (latent_sample (LatentRectifiedFlow_init guided_net 1 1 False identity_vae) 2 2
                      True example_rng)
       = Inr (zf, Some traj) \<and> select traj 2 = zf) \<and>
   (\<exists>zf traj. fst (latent_cond_sample (LatentRectifiedFlow_init guided_net 1 1 False identity_vae)
                      [3, 4] 2 (1 / 2) True example_rng)
       = Inr (zf, Some traj) \<and> select traj 2 = zf) \<and>
   fst (cond_sample (RectifiedFlow_init guided_net 1 1 False) [3, 4] 2 (1 / 2) True example_rng)
     = Inr (\<lparr>shape = [2, 1, 1, 1], entries = [1 / 2, 41 / 64]\<rparr>,
            Some \<lparr>shape = [3, 2, 1, 1, 1],
                  entries = [1 / 2, 3 / 4, 1 / 2, 11 / 16, 1 / 2, 41 / 64]\<rparr>)"
proof -
  define m where "m = RectifiedFlow_init guided_net 1 1 False"
  define l where "l = LatentRectifiedFlow_init guided_net 1 1 False identity_vae"
  have m: "net m = guided_net" "use_cond m" "channels m = 1" "image_size m = 1"
    by (simp_all add: m_def RectifiedFlow_init_def guided_net_def)
  have l: "net l = guided_net" "use_cond l" "vae l = identity_vae"
    by (simp_all add: l_def LatentRectifiedFlow_init_def RectifiedFlow_init_def guided_net_def
        RectifiedFlow.extend_def LatentRectifiedFlow.fields_def)
  have n2: "\<forall>z t. same_form z (call2 guided_net z t)"
    and ng: "\<forall>z t. same_form z (forward_with_cfg guided_net z t [3, 4] (1 / 2))"
    by (simp_all add: guided_net_def same_form_tmap)
  have d: "\<forall>a. wf_tensor a \<longrightarrow> wf_tensor (decode_sample identity_vae a)"
    "\<forall>a b. shape a = shape b \<longrightarrow>
       shape (decode_sample identity_vae a) = shape (decode_sample identity_vae b)"
    by (simp_all add: identity_vae_def)
  note t = all_steps_trajectory[where self = m and cl = "[3, 4]" and cfg = "1 / 2" and lself = l
      and B = 2 and n = 2 and g = example_rng, unfolded m l]
  have 1: "\<exists>zf traj. fst (sample m 2 2 True example_rng) = Inr (zf, Some traj) \<and>
             shape traj = [3, 2, 1, 1, 1] \<and> select traj 2 = zf"
    using t[THEN conjunct1, THEN mp, OF n2] by auto
  have 2: "\<exists>zf traj. fst (cond_sample m [3, 4] 2 (1 / 2) True example_rng) = Inr (zf, Some traj) \<and>
             shape traj = [3, 2, 1, 1, 1] \<and> select traj 2 = zf"
    using t[THEN conjunct2, THEN conjunct1, THEN mp, OF conjI[OF ng m(2)]] by auto
  have 3: "\<exists>zf traj. fst (latent_sample l 2 2 True example_rng) = Inr (zf, Some traj) \<and>
             select traj 2 = zf"
    using t[THEN conjunct2, THEN conjunct2, THEN conjunct1, THEN mp, OF conjI[OF n2 conjI[OF d]]]
    by auto
  have 4: "\<exists>zf traj. fst (latent_cond_sample l [3, 4] 2 (1 / 2) True example_rng)
             = Inr (zf, Some traj) \<and> select traj 2 = zf"
    using t[THEN conjunct2, THEN conjunct2, THEN conjunct2, THEN mp,
        OF conjI[OF ng conjI[OF l(2) conjI[OF d]]]]
    by auto
  have 5: "fst (cond_sample m [3, 4] 2 (1 / 2) True example_rng)
     = Inr (\<lparr>shape = [2, 1, 1, 1], entries = [1 / 2, 41 / 64]\<rparr>,
            Some \<lparr>shape = [3, 2, 1, 1, 1],
                  entries = [1 / 2, 3 / 4, 1 / 2, 11 / 16, 1 / 2, 41 / 64]\<rparr>)"
    by (simp add: m_def cond_sample_def RectifiedFlow_init_def guided_net_def example_rng_def
        tensor_eval)
  show ?thesis
    using 1 2 3 4 5 unfolding m_def l_def by (intro conjI)
qed

end
